theory Spec2Isabelle
  imports Main "HOL-Library.Sublist" "HOL-Library.AList" "HOL-Library.Char_ord" "HOL-Library.List_Lexorder"
begin

section \<open>Lexical path functions used by the handlers\<close>

text \<open>
  The handlers of \<^verbatim>\<open>main.go\<close> build every filesystem path with
  \<^verbatim>\<open>filepath.Clean\<close>, \<^verbatim>\<open>filepath.Join\<close> and \<^verbatim>\<open>filepath.Rel\<close> and test the result
  with \<^verbatim>\<open>strings.HasPrefix\<close>.  These are functions of the Go standard library; they are
  modelled here for a Unix target (the separator is the slash, there are no volume
  names, a backslash is an ordinary character), element by element: a path is split at
  its separators, the elements are processed as the library's loops process them, and
  the result is joined again.
\<close>

definition Separator :: char where
  "Separator = CHR ''/''"

text \<open>\<^verbatim>\<open>strings.Split(s, "/")\<close>: the pieces of \<open>s\<close> between separators (never the empty list).\<close>

fun split_sep :: "string \<Rightarrow> string list" where
  "split_sep [] = [[]]"
| "split_sep (c # cs) =
     (if c = Separator then [] # split_sep cs
      else (case split_sep cs of [] \<Rightarrow> [[c]] | x # xs \<Rightarrow> (c # x) # xs))"

text \<open>\<^verbatim>\<open>strings.Join(elems, "/")\<close>.\<close>

fun join_sep :: "string list \<Rightarrow> string" where
  "join_sep [] = []"
| "join_sep [x] = x"
| "join_sep (x # y # ys) = x @ Separator # join_sep (y # ys)"

definition HasPrefix :: "string \<Rightarrow> string \<Rightarrow> bool" where
  "HasPrefix s pre = (take (length pre) s = pre)"

definition HasSuffix :: "string \<Rightarrow> string \<Rightarrow> bool" where
  "HasSuffix s suf = (length suf \<le> length s \<and> drop (length s - length suf) s = suf)"

definition TrimPrefix :: "string \<Rightarrow> string \<Rightarrow> string" where
  "TrimPrefix s pre = (if HasPrefix s pre then drop (length pre) s else s)"

text \<open>
  One step of the loop of \<^verbatim>\<open>filepath.Clean\<close>, on the element \<open>e\<close> with the elements
  written so far in \<open>out\<close>: an empty element and \<^verbatim>\<open>.\<close> are dropped; \<^verbatim>\<open>..\<close> removes the
  last element written when there is one that is not itself \<^verbatim>\<open>..\<close> (the library's
  \<^verbatim>\<open>out.w > dotdot\<close>), is kept when the path is not rooted, and is dropped at the root;
  any other element is appended.
\<close>

definition clean_step :: "bool \<Rightarrow> string list \<Rightarrow> string \<Rightarrow> string list" where
  "clean_step rooted out e =
     (if e = [] \<or> e = ''.'' then out
      else if e = ''..'' then
        (if out \<noteq> [] \<and> last out \<noteq> ''..'' then butlast out
         else if \<not> rooted then out @ [''..'']
         else out)
      else out @ [e])"

definition Clean :: "string \<Rightarrow> string" where
  "Clean path =
     (if path = [] then ''.''
      else
        let rooted = (hd path = Separator);
            out = foldl (clean_step rooted) [] (split_sep path);
            s = (if rooted then [Separator] else []) @ join_sep out
        in if s = [] then ''.'' else s)"

text \<open>\<^verbatim>\<open>filepath.Join\<close>: the non-empty elements joined by the separator, then cleaned;
  the empty string when every element is empty.\<close>

definition Join :: "string list \<Rightarrow> string" where
  "Join elem =
     (let es = filter (\<lambda>e. e \<noteq> []) elem
      in if es = [] then [] else Clean (join_sep es))"

datatype error = RelError | ENOENT | ENOTDIR | EISDIR | ErrNotMultipart | ErrMissingFile | ErrJSON

text \<open>
  The elements that the loop of \<^verbatim>\<open>filepath.Rel\<close> walks over: the pieces between
  separators, a trailing separator ending the last element rather than starting an
  empty one.
\<close>

definition rel_elems :: "string \<Rightarrow> string list" where
  "rel_elems s = (let xs = split_sep s in if last xs = [] then butlast xs else xs)"

text \<open>The loop of \<^verbatim>\<open>filepath.Rel\<close>: skip the elements that base and target share.  After
  it, one \<^verbatim>\<open>..\<close> is written for every element left of the base, then what is left of
  the target.  (For the target \<^verbatim>\<open>.\<close> and a base with an element left this is spelt
  \<^verbatim>\<open>../.\<close> here; the handlers only test whether the result starts with \<^verbatim>\<open>..\<close>.)\<close>

fun rel_loop :: "string list \<Rightarrow> string list \<Rightarrow> string list \<times> string list" where
  "rel_loop (b # bs) (t # ts) = (if b = t then rel_loop bs ts else (b # bs, t # ts))"
| "rel_loop bs ts = (bs, ts)"

definition Rel :: "string \<Rightarrow> string \<Rightarrow> error + string" where
  "Rel basepath targpath =
     (let base = Clean basepath; targ = Clean targpath
      in if targ = base then Inr ''.''
         else
           let base = (if base = ''.'' then [] else base);
               baseSlashed = (base \<noteq> [] \<and> hd base = Separator);
               targSlashed = (targ \<noteq> [] \<and> hd targ = Separator)
           in if baseSlashed \<noteq> targSlashed then Inl RelError
              else
                (case rel_loop (rel_elems base) (rel_elems targ) of
                   (bs, ts) \<Rightarrow>
                     if bs \<noteq> [] \<and> ts \<noteq> [] \<and> hd bs = ''..'' then Inl RelError
                     else if bs \<noteq> [] then Inr (join_sep (replicate (length bs) ''..'' @ ts))
                     else Inr (join_sep ts)))"

definition uploadPath :: string where
  "uploadPath = ''./uploads''"


section \<open>The filesystem\<close>

text \<open>
  The filesystem is a tree from the root directory: a regular file with its bytes, or a
  directory with its named entries.  Symbolic links, permissions, timestamps and disk
  capacity are not modelled.  The process has a working directory \<open>cwd\<close> (the list of
  directory names from the root), against which the relative path \<^verbatim>\<open>./uploads\<close> and
  everything built on it are resolved.  Every call the handlers make on the filesystem
  is appended to \<open>calls\<close> with the path it was given.
\<close>

datatype node = FileNode string | DirNode "(string \<times> node) list"

datatype fs_call =
    ReadDirCall string
  | MkdirAllCall string
  | StatCall string
  | ServeFileCall string
  | CreateCall string
  | CopyCall string

fun call_path :: "fs_call \<Rightarrow> string" where
  "call_path (ReadDirCall p) = p"
| "call_path (MkdirAllCall p) = p"
| "call_path (StatCall p) = p"
| "call_path (ServeFileCall p) = p"
| "call_path (CreateCall p) = p"
| "call_path (CopyCall p) = p"

record world =
  root :: node
  cwd :: "string list"
  calls :: "fs_call list"

fun is_dir :: "node \<Rightarrow> bool" where
  "is_dir (DirNode es) = True"
| "is_dir (FileNode c) = False"

fun node_size :: "node \<Rightarrow> int" where
  "node_size (FileNode c) = int (length c)"
| "node_size (DirNode es) = 0"

text \<open>
  How the operating system walks a path: from the root when the path starts with a
  separator and from the working directory otherwise; an empty element and \<^verbatim>\<open>.\<close> stay,
  \<^verbatim>\<open>..\<close> goes to the parent (the root is its own parent), a name goes down.
\<close>

definition walk_step :: "string list \<Rightarrow> string \<Rightarrow> string list" where
  "walk_step acc e =
     (if e = [] \<or> e = ''.'' then acc
      else if e = ''..'' then butlast acc
      else acc @ [e])"

definition abspath :: "string list \<Rightarrow> string \<Rightarrow> string list" where
  "abspath wd p =
     foldl walk_step (if p \<noteq> [] \<and> hd p = Separator then [] else wd) (split_sep p)"

fun lookup :: "node \<Rightarrow> string list \<Rightarrow> error + node" where
  "lookup n [] = Inr n"
| "lookup (FileNode c) (x # xs) = Inl ENOTDIR"
| "lookup (DirNode es) (x # xs) =
     (case map_of es x of None \<Rightarrow> Inl ENOENT | Some ch \<Rightarrow> lookup ch xs)"

text \<open>\<^verbatim>\<open>os.MkdirAll\<close> on the tree: existing directories are walked through, missing ones
  are created, a regular file on the way (or at the end) is an error.\<close>

fun mkdir_all :: "node \<Rightarrow> string list \<Rightarrow> error + node" where
  "mkdir_all (FileNode c) xs = Inl ENOTDIR"
| "mkdir_all (DirNode es) [] = Inr (DirNode es)"
| "mkdir_all (DirNode es) (x # xs) =
     (case mkdir_all (case map_of es x of None \<Rightarrow> DirNode [] | Some ch \<Rightarrow> ch) xs of
        Inl e \<Rightarrow> Inl e
      | Inr ch' \<Rightarrow> Inr (DirNode (AList.update x ch' es)))"

text \<open>\<^verbatim>\<open>os.Create\<close> followed by writing: the file at the path gets the bytes \<open>c\<close>; its
  directory must exist, and the path must not be a directory.\<close>

fun put_file :: "node \<Rightarrow> string list \<Rightarrow> string \<Rightarrow> error + node" where
  "put_file (DirNode es) [] c = Inl EISDIR"
| "put_file (FileNode old) [] c = Inr (FileNode c)"
| "put_file (FileNode old) (x # xs) c = Inl ENOTDIR"
| "put_file (DirNode es) (x # xs) c =
     (case map_of es x of
        None \<Rightarrow> if xs = [] then Inr (DirNode (AList.update x (FileNode c) es)) else Inl ENOENT
      | Some ch \<Rightarrow>
          (case put_file ch xs c of
             Inl e \<Rightarrow> Inl e
           | Inr ch' \<Rightarrow> Inr (DirNode (AList.update x ch' es))))"

definition IsNotExist :: "error \<Rightarrow> bool" where
  "IsNotExist e = (e = ENOENT)"

definition os_Stat :: "world \<Rightarrow> string \<Rightarrow> (error + node) \<times> world" where
  "os_Stat w name =
     (lookup (root w) (abspath (cwd w) name), w\<lparr>calls := calls w @ [StatCall name]\<rparr>)"

text \<open>\<^verbatim>\<open>os.ReadDir\<close> returns the entries of a directory sorted by file name.\<close>

definition os_ReadDir :: "world \<Rightarrow> string \<Rightarrow> (error + (string \<times> node) list) \<times> world" where
  "os_ReadDir w name =
     ((case lookup (root w) (abspath (cwd w) name) of
         Inl e \<Rightarrow> Inl e
       | Inr (FileNode c) \<Rightarrow> Inl ENOTDIR
       | Inr (DirNode es) \<Rightarrow> Inr (sort_key fst es)),
      w\<lparr>calls := calls w @ [ReadDirCall name]\<rparr>)"

definition os_MkdirAll :: "world \<Rightarrow> string \<Rightarrow> error option \<times> world" where
  "os_MkdirAll w name =
     (case mkdir_all (root w) (abspath (cwd w) name) of
        Inl e \<Rightarrow> (Some e, w\<lparr>calls := calls w @ [MkdirAllCall name]\<rparr>)
      | Inr n \<Rightarrow> (None, w\<lparr>root := n, calls := calls w @ [MkdirAllCall name]\<rparr>))"

text \<open>\<^verbatim>\<open>os.Create\<close> creates or truncates the file and returns a handle, here the name.\<close>

definition os_Create :: "world \<Rightarrow> string \<Rightarrow> (error + string) \<times> world" where
  "os_Create w name =
     (case put_file (root w) (abspath (cwd w) name) [] of
        Inl e \<Rightarrow> (Inl e, w\<lparr>calls := calls w @ [CreateCall name]\<rparr>)
      | Inr n \<Rightarrow> (Inr name, w\<lparr>root := n, calls := calls w @ [CreateCall name]\<rparr>))"

text \<open>\<^verbatim>\<open>io.Copy(dst, file)\<close> writes the uploaded bytes into the created file and returns
  their number.\<close>

definition io_Copy :: "world \<Rightarrow> string \<Rightarrow> string \<Rightarrow> (error + int) \<times> world" where
  "io_Copy w dst src =
     (case put_file (root w) (abspath (cwd w) dst) src of
        Inl e \<Rightarrow> (Inl e, w\<lparr>calls := calls w @ [CopyCall dst]\<rparr>)
      | Inr n \<Rightarrow> (Inr (int (length src)), w\<lparr>root := n, calls := calls w @ [CopyCall dst]\<rparr>))"

section \<open>Requests and responses\<close>

text \<open>
  A multipart part with a file name, as \<^verbatim>\<open>r.FormFile\<close> returns it: the name the client
  sent in \<open>Filename\<close> and the bytes of the part.
\<close>

record file_part =
  Filename :: string
  content :: string

text \<open>
  The body of a request, as far as the decoders of the handlers tell bodies apart: a
  JSON document that \<^verbatim>\<open>json.Decode\<close> reads into the structure \<^verbatim>\<open>reqBody\<close> with the
  given \<^verbatim>\<open>Path\<close> and \<^verbatim>\<open>Name\<close> (a missing member is the empty string), a
  \<^verbatim>\<open>multipart/form-data\<close> body that the multipart reader parses, with its value fields
  and its file parts, or anything else (a body of another kind, a malformed one, a form
  whose value fields exceed what the reader keeps in memory).
\<close>

datatype body =
    OtherBody
  | JSONBody string string
  | MultipartBody "(string \<times> string) list" "(string \<times> file_part) list"

text \<open>
  A request: its method, the path of its URL, the query of its URL as the raw string
  and as the values that \<^verbatim>\<open>r.URL.Query()\<close> parses from it (the parsing is not
  modelled; the two are given together), and its body.
\<close>

record request =
  Method :: string
  URL_Path :: string
  RawQuery :: string
  Query :: "(string \<times> string) list"
  Body :: body

record reqBody =
  Path :: string
  Name :: string

record multipart_form =
  Value :: "(string \<times> string) list"
  File :: "(string \<times> file_part) list"

text \<open>The Go structure \<^verbatim>\<open>File\<close> of a listing entry; its \<^verbatim>\<open>UpdatedAt\<close> is left out with the
  timestamps.\<close>

record entry =
  entry_Name :: string
  entry_Path :: string
  entry_IsDir :: bool
  entry_Size :: int

datatype response =
    JSONError string nat
  | JSONFiles string "entry list"
  | JSONMessage string
  | HTTPError string nat
  | Redirect string nat
  | FileContent string string
  | DirListing "string list"
  | IndexPage

text \<open>
  \<open>Redirect u c\<close> is a redirect with status \<open>c\<close> to the target \<open>u\<close> as the handler or
  the library passes it; the escaping of bytes outside ASCII that the library applies
  when it writes the \<^verbatim>\<open>Location\<close> header is not modelled.
  \<^verbatim>\<open>sendJSONError\<close> writes the status code and the object
  \<^verbatim>\<open>{"success": false, "error": message}\<close>; \<open>JSONFiles\<close> and \<open>JSONMessage\<close> are the two
  bodies with \<^verbatim>\<open>"success": true\<close>, both sent with the default status 200.
\<close>

definition sendJSONError :: "string \<Rightarrow> nat \<Rightarrow> response" where
  "sendJSONError message statusCode = JSONError message statusCode"

fun status :: "response \<Rightarrow> nat" where
  "status (JSONError m c) = c"
| "status (JSONFiles p fs) = 200"
| "status (JSONMessage m) = 200"
| "status (HTTPError m c) = c"
| "status (Redirect l c) = c"
| "status (FileContent n c) = 200"
| "status (DirListing ns) = 200"
| "status IndexPage = 200"

definition Get :: "(string \<times> string) list \<Rightarrow> string \<Rightarrow> string" where
  "Get vs key = (case map_of vs key of None \<Rightarrow> [] | Some v \<Rightarrow> v)"

text \<open>
  \<^verbatim>\<open>r.ParseMultipartForm(maxMemory)\<close> fails on a body that is not a well-formed multipart
  form.  Its argument bounds the memory used for file parts, not their size: what
  exceeds it is kept in temporary files, and the form is returned whole.
\<close>

definition ParseMultipartForm :: "nat \<Rightarrow> request \<Rightarrow> error + multipart_form" where
  "ParseMultipartForm maxMemory r =
     (case Body r of
        MultipartBody vs fs \<Rightarrow> Inr \<lparr>Value = vs, File = fs\<rparr>
      | _ \<Rightarrow> Inl ErrNotMultipart)"

text \<open>\<^verbatim>\<open>r.FormValue(key)\<close>: the first value of the key among the URL query and the value
  fields of the parsed form, the empty string when there is none.\<close>

definition FormValue :: "request \<Rightarrow> multipart_form \<Rightarrow> string \<Rightarrow> string" where
  "FormValue r form key = Get (Query r @ Value form) key"

definition FormFile :: "multipart_form \<Rightarrow> string \<Rightarrow> error + file_part" where
  "FormFile form key =
     (case map_of (File form) key of None \<Rightarrow> Inl ErrMissingFile | Some fh \<Rightarrow> Inr fh)"

definition json_Decode :: "body \<Rightarrow> error + reqBody" where
  "json_Decode b =
     (case b of JSONBody p n \<Rightarrow> Inr \<lparr>Path = p, Name = n\<rparr> | _ \<Rightarrow> Inl ErrJSON)"


section \<open>The file server of the standard library\<close>

text \<open>
  \<^verbatim>\<open>http.ServeFile(w, r, name)\<close> replies with the contents of the named file or
  directory.  It refuses a request whose URL path has a \<^verbatim>\<open>..\<close> element (elements
  separated by slashes or backslashes), redirects a URL path ending in
  \<^verbatim>\<open>/index.html\<close> to its directory (keeping the query of the request), answers a directory requested without a final slash
  by a redirect to the same path with one, answers a directory by its \<^verbatim>\<open>index.html\<close>
  when there is one and by a listing of its entries otherwise, and answers a regular
  file by its bytes.  Range and conditional requests and the headers set on the reply
  are not modelled.
\<close>

definition containsDotDot :: "string \<Rightarrow> bool" where
  "containsDotDot v =
     (''..'' \<in> set (split_sep (map (\<lambda>c. if c = CHR 0x5C then Separator else c) v)))"

fun trim_slashes :: "string \<Rightarrow> string" where
  "trim_slashes s = rev (dropWhile (\<lambda>c. c = Separator) (rev s))"

text \<open>\<^verbatim>\<open>path.Base\<close>: the last element of a path, trailing slashes removed first.\<close>

definition Base :: "string \<Rightarrow> string" where
  "Base p =
     (if p = [] then ''.''
      else let q = trim_slashes p in if q = [] then ''/'' else last (split_sep q))"

text \<open>The names that the listing of a directory shows: sorted, a directory with a final
  slash.\<close>

definition dirList :: "(string \<times> node) list \<Rightarrow> string list" where
  "dirList es = map (\<lambda>f. if is_dir (snd f) then fst f @ ''/'' else fst f) (sort_key fst es)"

text \<open>The library's \<^verbatim>\<open>localRedirect\<close>: a redirect (301) to the new path, to which the raw
  query of the request is appended when there is one.\<close>

definition localRedirect :: "request \<Rightarrow> string \<Rightarrow> response" where
  "localRedirect r newPath =
     Redirect (if RawQuery r \<noteq> [] then newPath @ ''?'' @ RawQuery r else newPath) 301"

definition http_ServeFile :: "world \<Rightarrow> request \<Rightarrow> string \<Rightarrow> response \<times> world" where
  "http_ServeFile w r name =
     (let w1 = w\<lparr>calls := calls w @ [ServeFileCall name]\<rparr>
      in if containsDotDot (URL_Path r) then (HTTPError ''invalid URL path'' 400, w1)
         else if HasSuffix (URL_Path r) ''/index.html'' then (localRedirect r ''./'', w1)
         else
           (case lookup (root w) (abspath (cwd w) name) of
              Inl e \<Rightarrow> (HTTPError ''404 page not found'' 404, w1)
            | Inr (FileNode c) \<Rightarrow> (FileContent (Base name) c, w1)
            | Inr (DirNode es) \<Rightarrow>
                if URL_Path r = [] \<or> last (URL_Path r) \<noteq> Separator
                then (localRedirect r (Base (URL_Path r) @ ''/''), w1)
                else
                  (case map_of es ''index.html'' of
                     Some (FileNode c) \<Rightarrow> (FileContent ''index.html'' c, w1)
                   | Some (DirNode es') \<Rightarrow> (DirListing (dirList es'), w1)
                   | None \<Rightarrow> (DirListing (dirList es), w1))))"

section \<open>The handlers\<close>

definition handleIndex :: "world \<Rightarrow> request \<Rightarrow> response \<times> world" where
  "handleIndex w r =
     (if Method r \<noteq> ''GET'' then (HTTPError ''Method not allowed'' 405, w)
      else (IndexPage, w))"

text \<open>One entry of the listing, built from a directory entry and its \<^verbatim>\<open>Info()\<close> (which
  does not fail here, so no entry is skipped); a directory has size 0.\<close>

definition file_entry :: "string \<Rightarrow> string \<times> node \<Rightarrow> entry" where
  "file_entry dirPath f =
     \<lparr>entry_Name = fst f, entry_Path = Join [dirPath, fst f],
      entry_IsDir = is_dir (snd f), entry_Size = node_size (snd f)\<rparr>"

definition handleAPIFiles :: "world \<Rightarrow> request \<Rightarrow> response \<times> world" where
  "handleAPIFiles w r =
     (let dirPath = (if Get (Query r) ''path'' = [] then ''/'' else Get (Query r) ''path'');
          fullPath = Join [uploadPath, Clean dirPath]
      in (case Rel uploadPath fullPath of
            Inl err \<Rightarrow> (sendJSONError ''Invalid path'' 400, w)
          | Inr relPath \<Rightarrow>
              if HasPrefix relPath ''..'' then (sendJSONError ''Invalid path'' 400, w)
              else
                (case os_ReadDir w fullPath of
                   (Inl err, w1) \<Rightarrow>
                     if IsNotExist err then (JSONFiles dirPath [], w1)
                     else (sendJSONError ''Failed to read directory'' 500, w1)
                 | (Inr files, w1) \<Rightarrow>
                     (JSONFiles dirPath (map (file_entry dirPath) files), w1))))"

definition handleAPIUpload :: "world \<Rightarrow> request \<Rightarrow> response \<times> world" where
  "handleAPIUpload w r =
     (if Method r \<noteq> ''POST'' then (sendJSONError ''Method not allowed'' 405, w)
      else
        (case ParseMultipartForm (32 * 2 ^ 20) r of
           Inl err \<Rightarrow> (sendJSONError ''Failed to parse form'' 400, w)
         | Inr form \<Rightarrow>
             (let dirPath = (if FormValue r form ''path'' = [] then ''/''
                             else FormValue r form ''path'');
                  fullDirPath = Join [uploadPath, Clean dirPath]
              in (case os_MkdirAll w fullDirPath of
                    (Some err, w1) \<Rightarrow> (sendJSONError ''Failed to create directory'' 500, w1)
                  | (None, w1) \<Rightarrow>
                      (case FormFile form ''file'' of
                         Inl err \<Rightarrow> (sendJSONError ''Failed to get file from form'' 400, w1)
                       | Inr handler \<Rightarrow>
                           (let fullPath = Join [fullDirPath, Filename handler]
                            in (case os_Create w1 fullPath of
                                  (Inl err, w2) \<Rightarrow>
                                    (sendJSONError ''Failed to create file on server'' 500, w2)
                                | (Inr dst, w2) \<Rightarrow>
                                    (case io_Copy w2 dst (content handler) of
                                       (Inl err, w3) \<Rightarrow>
                                         (sendJSONError ''Failed to save file'' 500, w3)
                                     | (Inr n, w3) \<Rightarrow>
                                         (JSONMessage (''File uploaded successfully to ''
                                            @ Join [dirPath, Filename handler]), w3)))))))))"

definition handleAPIMkdir :: "world \<Rightarrow> request \<Rightarrow> response \<times> world" where
  "handleAPIMkdir w r =
     (if Method r \<noteq> ''POST'' then (sendJSONError ''Method not allowed'' 405, w)
      else
        (case json_Decode (Body r) of
           Inl err \<Rightarrow> (sendJSONError ''Invalid request'' 400, w)
         | Inr rb \<Rightarrow>
             if Name rb = [] then (sendJSONError ''Directory name is required'' 400, w)
             else
               (let fullPath = Join [uploadPath, Clean (Path rb), Name rb]
                in (case Rel uploadPath fullPath of
                      Inl err \<Rightarrow> (sendJSONError ''Invalid path'' 400, w)
                    | Inr relPath \<Rightarrow>
                        if HasPrefix relPath ''..'' then (sendJSONError ''Invalid path'' 400, w)
                        else
                          (case os_MkdirAll w fullPath of
                             (Some err, w1) \<Rightarrow>
                               (sendJSONError ''Failed to create directory'' 500, w1)
                           | (None, w1) \<Rightarrow>
                               (JSONMessage (''Directory '' @ [CHR 0x27] @ Name rb @ [CHR 0x27]
                                  @ '' created successfully''), w1))))))"

definition handleDownload :: "world \<Rightarrow> request \<Rightarrow> response \<times> world" where
  "handleDownload w r =
     (if Method r \<noteq> ''GET'' then (HTTPError ''Method not allowed'' 405, w)
      else
        (let filePath = (if TrimPrefix (URL_Path r) ''/download'' = [] then ''/''
                         else TrimPrefix (URL_Path r) ''/download'');
             fullPath = Join [uploadPath, Clean filePath]
         in (case Rel uploadPath fullPath of
               Inl err \<Rightarrow> (HTTPError ''Invalid path'' 400, w)
             | Inr relPath \<Rightarrow>
                 if HasPrefix relPath ''..'' then (HTTPError ''Invalid path'' 400, w)
                 else
                   (case os_Stat w fullPath of
                      (Inl err, w1) \<Rightarrow> (HTTPError ''File not found'' 404, w1)
                    | (Inr fileInfo, w1) \<Rightarrow>
                        if is_dir fileInfo \<and> filePath \<noteq> ''/''
                        then (Redirect (''/?path='' @ filePath) 302, w1)
                        else http_ServeFile w1 r fullPath))))"


section \<open>Confinement to the storage root\<close>

text \<open>
  A path lies under the storage root when the place it denotes, walked from the working
  directory, is the place of \<^verbatim>\<open>./uploads\<close> or below it.  Lexically this is
  guaranteed when the first element of the path is \<^verbatim>\<open>uploads\<close> and no later element is
  \<^verbatim>\<open>..\<close>.
\<close>

definition within_root :: "string \<Rightarrow> bool" where
  "within_root p = (case split_sep p of [] \<Rightarrow> False | e # es \<Rightarrow> e = ''uploads'' \<and> ''..'' \<notin> set es)"

definition under_root :: "string list \<Rightarrow> string \<Rightarrow> bool" where
  "under_root wd p = prefix (abspath wd uploadPath) (abspath wd p)"

text \<open>
  What the confinement guard of the handlers establishes for a path: the relative path
  from the storage root to it is computed without error and its first element is not
  \<^verbatim>\<open>..\<close>, and the path lies under the storage root.
\<close>

definition guarded :: "string list \<Rightarrow> string \<Rightarrow> bool" where
  "guarded wd p = ((\<exists>rel. Rel uploadPath p = Inr rel \<and> hd (split_sep rel) \<noteq> ''..'') \<and> under_root wd p)"

text \<open>
  The shape of a cleaned path: no empty element, no \<^verbatim>\<open>.\<close>, no separator inside an
  element, every \<^verbatim>\<open>..\<close> at the front, and none at all when the path is rooted.
\<close>

fun lead :: "string list \<Rightarrow> bool" where
  "lead [] = True"
| "lead (x # xs) = (if x = ''..'' then lead xs else ''..'' \<notin> set xs)"

definition good_elem :: "string \<Rightarrow> bool" where
  "good_elem e = (e \<noteq> [] \<and> e \<noteq> ''.'' \<and> Separator \<notin> set e)"

definition clean_ok :: "bool \<Rightarrow> string list \<Rightarrow> bool" where
  "clean_ok rooted out = ((\<forall>e\<in>set out. good_elem e) \<and> lead out \<and> (rooted \<longrightarrow> ''..'' \<notin> set out))"

text \<open>A filesystem for the examples: the server runs in \<^verbatim>\<open>/srv/app\<close>, and its storage
  root holds \<^verbatim>\<open>index.html\<close> and the directory \<^verbatim>\<open>docs\<close> with the ten-byte file \<^verbatim>\<open>a.txt\<close>.\<close>

definition world_ex :: world where
  "world_ex =
     \<lparr>root = DirNode [(''srv'', DirNode [(''app'', DirNode [(''uploads'',
        DirNode [(''index.html'', FileNode ''hi''),
                 (''docs'', DirNode [(''a.txt'', FileNode ''0123456789'')])])])])],
      cwd = [''srv'', ''app''], calls = []\<rparr>"

text \<open>The bytes of a file part one byte larger than 32 MiB.\<close>

definition big_file :: string where
  "big_file = replicate (32 * 2 ^ 20 + 1) (CHR ''a'')"

section \<open>Properties of the path functions\<close>

lemma split_sep_nonempty: "split_sep s \<noteq> []"
  by (induction s) (auto split: list.splits)

lemma split_sep_no_sep: "e \<in> set (split_sep s) \<Longrightarrow> Separator \<notin> set e"
  by (induction s arbitrary: e) (auto split: if_splits list.splits)

lemma split_sep_plain: "Separator \<notin> set x \<Longrightarrow> split_sep x = [x]"
  by (induction x) auto

lemma split_sep_append: "Separator \<notin> set x \<Longrightarrow> split_sep (x @ Separator # s) = x # split_sep s"
  by (induction x) auto

lemma split_join: "xs \<noteq> [] \<Longrightarrow> \<forall>x\<in>set xs. Separator \<notin> set x \<Longrightarrow> split_sep (join_sep xs) = xs"
  by (induction xs rule: join_sep.induct) (auto simp: split_sep_plain split_sep_append)

lemma join_sep_Cons: "join_sep (x # xs) = x @ (if xs = [] then [] else Separator # join_sep xs)"
  by (cases xs) auto

lemma lead_snoc: "lead (xs @ [e]) = (if e = ''..'' then (\<forall>x\<in>set xs. x = ''..'') else lead xs)"
  by (induction xs) auto

lemma lead_prefix: "lead (xs @ ys) \<Longrightarrow> lead xs"
  by (induction xs) (auto split: if_splits)

lemma lead_butlast: "lead xs \<Longrightarrow> lead (butlast xs)"
  by (cases xs rule: rev_cases) (auto dest: lead_prefix)

lemma lead_before_dotdot: "lead (xs @ ''..'' # ys) \<Longrightarrow> \<forall>x\<in>set xs. x = ''..''"
  by (induction xs) (auto split: if_splits)

lemma lead_last: "lead xs \<Longrightarrow> xs \<noteq> [] \<Longrightarrow> last xs = ''..'' \<Longrightarrow> \<forall>x\<in>set xs. x = ''..''"
  by (cases xs rule: rev_cases) (auto dest: lead_before_dotdot)

lemma clean_step_ok:
  "clean_ok rooted out \<Longrightarrow> Separator \<notin> set e \<Longrightarrow> clean_ok rooted (clean_step rooted out e)"
proof -
  assume ok: "clean_ok rooted out" and ns: "Separator \<notin> set e"
  from ok have g: "\<forall>x\<in>set out. good_elem x" and l: "lead out" and r: "rooted \<longrightarrow> ''..'' \<notin> set out"
    by (auto simp: clean_ok_def)
  consider (skip) "e = [] \<or> e = ''.''" | (pop) "e = ''..''" "out \<noteq> []" "last out \<noteq> ''..''"
    | (push_dd) "e = ''..''" "out = [] \<or> last out = ''..''" "\<not> rooted"
    | (drop_dd) "e = ''..''" "out = [] \<or> last out = ''..''" "rooted"
    | (push) "e \<noteq> []" "e \<noteq> ''.''" "e \<noteq> ''..''"
    by blast
  then show ?thesis
  proof cases
    case skip
    then show ?thesis using ok by (auto simp: clean_step_def)
  next
    case pop
    have "clean_step rooted out e = butlast out" using pop by (simp add: clean_step_def)
    moreover have "clean_ok rooted (butlast out)"
      using g l r by (auto simp: clean_ok_def lead_butlast dest: in_set_butlastD)
    ultimately show ?thesis by simp
  next
    case push_dd
    have "clean_step rooted out e = out @ [''..'']" using push_dd by (auto simp: clean_step_def)
    moreover have "\<forall>x\<in>set out. x = ''..''"
      using push_dd(2) l lead_last by (cases "out = []") auto
    moreover have "good_elem ''..''" by (simp add: good_elem_def Separator_def)
    ultimately show ?thesis using g push_dd(3) by (simp add: clean_ok_def lead_snoc)
  next
    case drop_dd
    have "clean_step rooted out e = out" using drop_dd by (auto simp: clean_step_def)
    then show ?thesis using ok by simp
  next
    case push
    have "clean_step rooted out e = out @ [e]" using push by (simp add: clean_step_def)
    moreover have "good_elem e" using push ns by (simp add: good_elem_def)
    ultimately show ?thesis using g l r push by (simp add: clean_ok_def lead_snoc)
  qed
qed

lemma foldl_clean_ok:
  "clean_ok rooted out \<Longrightarrow> \<forall>e\<in>set es. Separator \<notin> set e \<Longrightarrow> clean_ok rooted (foldl (clean_step rooted) out es)"
  by (induction es arbitrary: out) (auto simp: clean_step_ok)

lemma clean_step_id:
  assumes "clean_ok rooted (out @ e # es)"
  shows "clean_step rooted out e = out @ [e]"
proof -
  from assms have g: "good_elem e" and l: "lead (out @ e # es)" and r: "rooted \<longrightarrow> e \<noteq> ''..''"
    by (auto simp: clean_ok_def)
  show ?thesis
  proof (cases "e = ''..''")
    case True
    with l have "\<forall>x\<in>set out. x = ''..''" using lead_before_dotdot by blast
    hence "out = [] \<or> last out = ''..''" by (cases out rule: rev_cases) auto
    with True r show ?thesis by (auto simp: clean_step_def)
  next
    case False
    with g show ?thesis by (auto simp: clean_step_def good_elem_def)
  qed
qed

lemma foldl_clean_id:
  "clean_ok rooted (out @ es) \<Longrightarrow> foldl (clean_step rooted) out es = out @ es"
proof (induction es arbitrary: out)
  case Nil thus ?case by simp
next
  case (Cons e es)
  have "clean_step rooted out e = out @ [e]" using Cons.prems by (rule clean_step_id)
  moreover have "clean_ok rooted ((out @ [e]) @ es)" using Cons.prems by simp
  ultimately show ?case using Cons.IH[of "out @ [e]"] by simp
qed

lemma clean_ok_Nil: "clean_ok rooted []"
  by (simp add: clean_ok_def)

lemma Clean_dot: "Clean ''.'' = ''.''"
  by (simp add: Clean_def clean_step_def Separator_def)

lemma Clean_uploadPath: "Clean uploadPath = ''uploads''"
  by (simp add: Clean_def uploadPath_def clean_step_def Separator_def)

lemma Clean_shape:
  "Clean p = ''.'' \<or>
   (\<exists>rooted out. clean_ok rooted out \<and> (rooted \<or> out \<noteq> []) \<and>
      Clean p = (if rooted then [Separator] else []) @ join_sep out)"
proof (cases "p = []")
  case True
  then show ?thesis by (simp add: Clean_def)
next
  case False
  define rooted where "rooted = (hd p = Separator)"
  define out where "out = foldl (clean_step rooted) [] (split_sep p)"
  define s where "s = (if rooted then [Separator] else []) @ join_sep out"
  have ok: "clean_ok rooted out"
    unfolding out_def by (rule foldl_clean_ok) (auto simp: clean_ok_Nil split_sep_no_sep)
  have C: "Clean p = (if s = [] then ''.'' else s)"
    using False by (simp add: Clean_def Let_def rooted_def out_def s_def)
  show ?thesis
  proof (cases "s = []")
    case True
    with C show ?thesis by simp
  next
    case False
    hence ne: "rooted \<or> out \<noteq> []" by (auto simp: s_def)
    have "Clean p = (if rooted then [Separator] else []) @ join_sep out"
      using C False by (simp add: s_def)
    with ok ne have "clean_ok rooted out \<and> (rooted \<or> out \<noteq> []) \<and>
      Clean p = (if rooted then [Separator] else []) @ join_sep out" by blast
    then show ?thesis by blast
  qed
qed

lemma join_sep_hd: "out \<noteq> [] \<Longrightarrow> hd out \<noteq> [] \<Longrightarrow> join_sep out \<noteq> [] \<and> hd (join_sep out) = hd (hd out)"
  by (cases out) (auto simp: join_sep_Cons)

lemma Clean_of_shape:
  assumes ok: "clean_ok rooted out" and ne: "rooted \<or> out \<noteq> []"
  shows "Clean ((if rooted then [Separator] else []) @ join_sep out)
         = (if rooted then [Separator] else []) @ join_sep out"
proof -
  have nosep: "\<forall>x\<in>set out. Separator \<notin> set x" using ok by (auto simp: clean_ok_def good_elem_def)
  have id: "foldl (clean_step rooted) [] out = out"
    using foldl_clean_id[of rooted "[]" out] ok by simp
  show ?thesis
  proof (cases rooted)
    case True
    show ?thesis
    proof (cases "out = []")
      case True
      with \<open>rooted\<close> show ?thesis by (simp add: Clean_def clean_step_def)
    next
      case False
      hence "split_sep (join_sep out) = out" using nosep by (simp add: split_join)
      with True id show ?thesis by (simp add: Clean_def clean_step_def)
    qed
  next
    case False
    with ne have o: "out \<noteq> []" by simp
    hence sp: "split_sep (join_sep out) = out" using nosep by (simp add: split_join)
    have "hd out \<in> set out" using o by simp
    hence g: "good_elem (hd out)" using ok by (auto simp: clean_ok_def)
    hence h: "join_sep out \<noteq> [] \<and> hd (join_sep out) = hd (hd out)"
      using o join_sep_hd by (simp add: good_elem_def)
    have "hd (hd out) \<noteq> Separator" using g by (cases "hd out") (auto simp: good_elem_def)
    with h False sp id show ?thesis by (simp add: Clean_def)
  qed
qed

lemma Clean_idem: "Clean (Clean p) = Clean p"
proof -
  from Clean_shape[of p] show ?thesis
  proof
    assume "Clean p = ''.''"
    then show ?thesis by (simp add: Clean_dot)
  next
    assume "\<exists>rooted out. clean_ok rooted out \<and> (rooted \<or> out \<noteq> []) \<and>
      Clean p = (if rooted then [Separator] else []) @ join_sep out"
    then obtain rooted out where ok: "clean_ok rooted out" and ne: "rooted \<or> out \<noteq> []"
      and C: "Clean p = (if rooted then [Separator] else []) @ join_sep out" by blast
    from Clean_of_shape[OF ok ne] C show ?thesis by simp
  qed
qed

lemma Clean_unrooted:
  assumes "Clean p = [] \<or> hd (Clean p) \<noteq> Separator"
  shows "\<exists>e es. split_sep (Clean p) = e # es \<and> e \<noteq> [] \<and> (\<forall>x\<in>set es. x \<noteq> []) \<and> lead (e # es)
            \<and> Clean p = join_sep (e # es)"
proof -
  from Clean_shape[of p] show ?thesis
  proof
    assume "Clean p = ''.''"
    then show ?thesis by (simp add: Separator_def)
  next
    assume "\<exists>rooted out. clean_ok rooted out \<and> (rooted \<or> out \<noteq> []) \<and>
      Clean p = (if rooted then [Separator] else []) @ join_sep out"
    then obtain rooted out where ok: "clean_ok rooted out" and ne: "rooted \<or> out \<noteq> []"
      and C: "Clean p = (if rooted then [Separator] else []) @ join_sep out" by blast
    have nr: "\<not> rooted" using assms C by auto
    with ne obtain e es where o: "out = e # es" by (cases out) auto
    have nosep: "\<forall>x\<in>set out. Separator \<notin> set x" using ok by (auto simp: clean_ok_def good_elem_def)
    have "split_sep (Clean p) = out" using C nr o nosep split_join[of out] by simp
    moreover have "\<forall>x\<in>set out. x \<noteq> []" using ok by (auto simp: clean_ok_def good_elem_def)
    moreover have "lead out" using ok by (simp add: clean_ok_def)
    ultimately show ?thesis using o C nr by auto
  qed
qed

lemma HasPrefix_dotdot_join: "HasPrefix (join_sep (''..'' # xs)) ''..''"
  by (cases xs) (auto simp: HasPrefix_def)

lemma Rel_uploadPath:
  assumes "Clean t = t" and "t \<noteq> ''uploads''"
  shows "Rel uploadPath t =
    (if t \<noteq> [] \<and> hd t = Separator then Inl RelError
     else (case rel_loop [''uploads''] (rel_elems t) of
             (bs, ts) \<Rightarrow>
               if bs \<noteq> [] \<and> ts \<noteq> [] \<and> hd bs = ''..'' then Inl RelError
               else if bs \<noteq> [] then Inr (join_sep (replicate (length bs) ''..'' @ ts))
               else Inr (join_sep ts)))"
proof -
  have rb: "rel_elems ''uploads'' = [''uploads'']" by (simp add: rel_elems_def Separator_def)
  have hb: "hd ''uploads'' \<noteq> Separator" by (simp add: Separator_def)
  show ?thesis
    unfolding Rel_def Let_def Clean_uploadPath assms(1)
    using assms(2) rb hb by simp
qed

lemma guard_within:
  assumes R: "Rel uploadPath (Clean s) = Inr rel" and np: "\<not> HasPrefix rel ''..''"
  shows "within_root (Clean s)"
proof (cases "Clean s = ''uploads''")
  case True
  then show ?thesis by (simp add: within_root_def Separator_def)
next
  case False
  define t where "t = Clean s"
  have tt: "Clean t = t" by (simp add: t_def Clean_idem)
  have tn: "t \<noteq> ''uploads''" using False by (simp add: t_def)
  note RU = Rel_uploadPath[OF tt tn]
  have Rt: "Rel uploadPath t = Inr rel" using R by (simp add: t_def)
  have ns: "t = [] \<or> hd t \<noteq> Separator"
  proof (rule ccontr)
    assume "\<not> (t = [] \<or> hd t \<noteq> Separator)"
    hence "Rel uploadPath t = Inl RelError" using RU by simp
    with Rt show False by simp
  qed
  then obtain e es where sp: "split_sep t = e # es" and e: "e \<noteq> []" and es: "\<forall>x\<in>set es. x \<noteq> []"
    and l: "lead (e # es)"
    using Clean_unrooted[of s] unfolding t_def by blast
  have le: "last (e # es) \<noteq> []" using e es by (cases es rule: rev_cases) auto
  have re: "rel_elems t = e # es" using sp le by (simp add: rel_elems_def)
  have eq: "e = ''uploads''"
  proof (rule ccontr)
    assume ne: "e \<noteq> ''uploads''"
    have "rel_loop [''uploads''] (e # es) = ([''uploads''], e # es)" using ne by auto
    hence "Rel uploadPath t = Inr (join_sep (''..'' # e # es))"
      using RU ns re by (simp del: join_sep.simps)
    with Rt have "rel = join_sep (''..'' # e # es)" by simp
    with np HasPrefix_dotdot_join[of "e # es"] show False by simp
  qed
  with l have "''..'' \<notin> set es" by simp
  with sp eq show ?thesis unfolding t_def[symmetric] by (simp add: within_root_def)
qed

lemma foldl_walk_no_dotdot:
  "''..'' \<notin> set es \<Longrightarrow> foldl walk_step acc es = acc @ filter (\<lambda>e. e \<noteq> [] \<and> e \<noteq> ''.'') es"
  by (induction es arbitrary: acc) (auto simp: walk_step_def)

lemma split_sep_hd: "split_sep p = e # es \<Longrightarrow> e \<noteq> [] \<Longrightarrow> p \<noteq> [] \<and> hd p = hd e"
  by (cases p) (auto split: if_splits list.splits)

lemma abspath_uploadPath: "abspath wd uploadPath = wd @ [''uploads'']"
  by (simp add: abspath_def uploadPath_def walk_step_def Separator_def)

lemma within_under: "within_root p \<Longrightarrow> under_root wd p"
proof -
  assume "within_root p"
  then obtain es where sp: "split_sep p = ''uploads'' # es" and nd: "''..'' \<notin> set es"
    by (auto simp: within_root_def split: list.splits)
  from split_sep_hd[OF sp] have "p \<noteq> [] \<and> hd p \<noteq> Separator" by (simp add: Separator_def)
  hence "abspath wd p = foldl walk_step wd (''uploads'' # es)" using sp by (simp add: abspath_def)
  also have "\<dots> = wd @ ''uploads'' # filter (\<lambda>e. e \<noteq> [] \<and> e \<noteq> ''.'') es"
    using nd foldl_walk_no_dotdot[of es "wd @ [''uploads'']"] by (simp add: walk_step_def)
  finally show ?thesis by (simp add: under_root_def abspath_uploadPath)
qed

lemma Join_upload_Clean: "\<exists>s. Join (uploadPath # xs) = Clean s"
  by (auto simp: Join_def uploadPath_def Let_def)

lemma guard_Join:
  assumes "Rel uploadPath (Join (uploadPath # xs)) = Inr rel" and "\<not> HasPrefix rel ''..''"
  shows "within_root (Join (uploadPath # xs))"
proof -
  obtain s where "Join (uploadPath # xs) = Clean s" using Join_upload_Clean by blast
  with assms guard_within show ?thesis by simp
qed

lemma split_sep_hd_take: "take (length (hd (split_sep s))) s = hd (split_sep s)"
  by (induction s) (auto split: list.splits)

lemma first_segment_HasPrefix: "hd (split_sep rel) = ''..'' \<Longrightarrow> HasPrefix rel ''..''"
  using split_sep_hd_take[of rel] by (simp add: HasPrefix_def)

lemma guardedI:
  assumes "Rel uploadPath (Join (uploadPath # xs)) = Inr rel" and "\<not> HasPrefix rel ''..''"
  shows "guarded wd (Join (uploadPath # xs))"
  using assms guard_Join[OF assms] first_segment_HasPrefix[of rel] within_under
  unfolding guarded_def by blast

lemma files_calls:
  assumes "handleAPIFiles w r = (resp, w')"
  shows "\<exists>new. calls w' = calls w @ new \<and> (\<forall>c\<in>set new. guarded (cwd w) (call_path c))"
proof -
  define dirPath where "dirPath = (if Get (Query r) ''path'' = [] then ''/'' else Get (Query r) ''path'')"
  define fullPath where "fullPath = Join [uploadPath, Clean dirPath]"
  have H: "handleAPIFiles w r = (case Rel uploadPath fullPath of
            Inl err \<Rightarrow> (sendJSONError ''Invalid path'' 400, w)
          | Inr relPath \<Rightarrow>
              if HasPrefix relPath ''..'' then (sendJSONError ''Invalid path'' 400, w)
              else
                (case os_ReadDir w fullPath of
                   (Inl err, w1) \<Rightarrow>
                     if IsNotExist err then (JSONFiles dirPath [], w1)
                     else (sendJSONError ''Failed to read directory'' 500, w1)
                 | (Inr files, w1) \<Rightarrow>
                     (JSONFiles dirPath (map (file_entry dirPath) files), w1)))"
    unfolding handleAPIFiles_def Let_def dirPath_def fullPath_def by (rule refl)
  show ?thesis
  proof (cases "\<exists>rel. Rel uploadPath fullPath = Inr rel \<and> \<not> HasPrefix rel ''..''")
    case False
    hence "w' = w" using assms H by (auto split: sum.splits if_splits)
    then show ?thesis by simp
  next
    case True
    then obtain rel where R: "Rel uploadPath fullPath = Inr rel" and np: "\<not> HasPrefix rel ''..''" by blast
    have g: "guarded (cwd w) fullPath" using guardedI R np unfolding fullPath_def by blast
    have "calls w' = calls w @ [ReadDirCall fullPath]"
      using assms H R np by (auto simp: os_ReadDir_def split: sum.splits if_splits prod.splits node.splits)
    with g show ?thesis by simp
  qed
qed


lemma mkdir_calls:
  assumes "handleAPIMkdir w r = (resp, w')"
  shows "\<exists>new. calls w' = calls w @ new \<and> (\<forall>c\<in>set new. guarded (cwd w) (call_path c))"
proof (cases "Method r \<noteq> ''POST'' \<or> (\<exists>e. json_Decode (Body r) = Inl e)")
  case True
  have "handleAPIMkdir w r = (sendJSONError ''Method not allowed'' 405, w)
      \<or> handleAPIMkdir w r = (sendJSONError ''Invalid request'' 400, w)"
    using True unfolding handleAPIMkdir_def by (cases "Method r \<noteq> ''POST''") auto
  hence "w' = w" using assms by auto
  then show ?thesis by simp
next
  case False
  then obtain rb where m: "Method r = ''POST''" and d: "json_Decode (Body r) = Inr rb"
    by (cases "json_Decode (Body r)") auto
  define fullPath where "fullPath = Join [uploadPath, Clean (Path rb), Name rb]"
  have H: "handleAPIMkdir w r =
     (if Name rb = [] then (sendJSONError ''Directory name is required'' 400, w)
      else (case Rel uploadPath fullPath of
              Inl err \<Rightarrow> (sendJSONError ''Invalid path'' 400, w)
            | Inr relPath \<Rightarrow>
                if HasPrefix relPath ''..'' then (sendJSONError ''Invalid path'' 400, w)
                else
                  (case os_MkdirAll w fullPath of
                     (Some err, w1) \<Rightarrow> (sendJSONError ''Failed to create directory'' 500, w1)
                   | (None, w1) \<Rightarrow>
                       (JSONMessage (''Directory '' @ [CHR 0x27] @ Name rb @ [CHR 0x27]
                          @ '' created successfully''), w1))))"
    unfolding handleAPIMkdir_def Let_def fullPath_def using m d by simp
  show ?thesis
  proof (cases "Name rb \<noteq> [] \<and> (\<exists>rel. Rel uploadPath fullPath = Inr rel \<and> \<not> HasPrefix rel ''..'')")
    case False
    hence "w' = w" using assms H by (auto split: sum.splits if_splits)
    then show ?thesis by simp
  next
    case True
    then obtain rel where n: "Name rb \<noteq> []" and R: "Rel uploadPath fullPath = Inr rel"
      and np: "\<not> HasPrefix rel ''..''" by blast
    have g: "guarded (cwd w) fullPath" using guardedI R np unfolding fullPath_def by blast
    have "calls w' = calls w @ [MkdirAllCall fullPath]"
      using assms H R np n by (auto simp: os_MkdirAll_def split: sum.splits)
    with g show ?thesis by simp
  qed
qed

lemma download_calls:
  assumes "handleDownload w r = (resp, w')"
  shows "\<exists>new. calls w' = calls w @ new \<and> (\<forall>c\<in>set new. guarded (cwd w) (call_path c))"
proof (cases "Method r \<noteq> ''GET''")
  case True
  hence "handleDownload w r = (HTTPError ''Method not allowed'' 405, w)"
    by (simp add: handleDownload_def)
  hence "w' = w" using assms by simp
  then show ?thesis by simp
next
  case False
  define filePath where "filePath = (if TrimPrefix (URL_Path r) ''/download'' = [] then ''/''
                         else TrimPrefix (URL_Path r) ''/download'')"
  define fullPath where "fullPath = Join [uploadPath, Clean filePath]"
  have H: "handleDownload w r =
     (case Rel uploadPath fullPath of
        Inl err \<Rightarrow> (HTTPError ''Invalid path'' 400, w)
      | Inr relPath \<Rightarrow>
          if HasPrefix relPath ''..'' then (HTTPError ''Invalid path'' 400, w)
          else
            (case os_Stat w fullPath of
               (Inl err, w1) \<Rightarrow> (HTTPError ''File not found'' 404, w1)
             | (Inr fileInfo, w1) \<Rightarrow>
                 if is_dir fileInfo \<and> filePath \<noteq> ''/''
                 then (Redirect (''/?path='' @ filePath) 302, w1)
                 else http_ServeFile w1 r fullPath))"
    unfolding handleDownload_def Let_def fullPath_def filePath_def using False by simp
  show ?thesis
  proof (cases "\<exists>rel. Rel uploadPath fullPath = Inr rel \<and> \<not> HasPrefix rel ''..''")
    case False
    hence "w' = w" using assms H by (auto split: sum.splits if_splits)
    then show ?thesis by simp
  next
    case True
    then obtain rel where R: "Rel uploadPath fullPath = Inr rel"
      and np: "\<not> HasPrefix rel ''..''" by blast
    have g: "guarded (cwd w) fullPath" using guardedI R np unfolding fullPath_def by blast
    have sf: "calls (snd (http_ServeFile v r fullPath)) = calls v @ [ServeFileCall fullPath]" for v
      by (auto simp: http_ServeFile_def Let_def split: sum.splits node.splits option.splits)
    have "calls w' = calls w @ [StatCall fullPath]
        \<or> calls w' = calls w @ [StatCall fullPath, ServeFileCall fullPath]"
      using assms H R np sf[of "w\<lparr>calls := calls w @ [StatCall fullPath]\<rparr>"]
      by (auto simp: os_Stat_def split: sum.splits if_splits)
    with g show ?thesis by auto
  qed
qed

section \<open>The guarded handlers stay inside the storage root\<close>

text \<open>
  Claim C3.  In the listing, mkdir and download handlers every filesystem call
  (\<^verbatim>\<open>ReadDir\<close>, \<^verbatim>\<open>MkdirAll\<close>, \<^verbatim>\<open>Stat\<close>, \<^verbatim>\<open>ServeFile\<close>) is made on a path that has passed
  the confinement guard: whatever the request and the filesystem, each call that the
  handler adds to the record of calls has a path whose relative path from the storage
  root, computed lexically, does not begin with a parent-directory element, and that
  lies under the storage root.
\<close>

theorem guarded_handlers_stay_in_root:
  assumes "h = handleAPIFiles \<or> h = handleAPIMkdir \<or> h = handleDownload"
    and "h w r = (resp, w')"
  shows "\<exists>new. calls w' = calls w @ new \<and>
           (\<forall>c\<in>set new.
              (\<exists>rel. Rel uploadPath (call_path c) = Inr rel \<and> hd (split_sep rel) \<noteq> ''..'')
              \<and> under_root (cwd w) (call_path c))"
  using assms files_calls[of w r resp w'] mkdir_calls[of w r resp w'] download_calls[of w r resp w']
  unfolding guarded_def by blast

theorem guarded_handlers_stay_in_root_witness:
  "handleDownload world_ex \<lparr>Method = ''GET'', URL_Path = ''/download/docs/a.txt'', RawQuery = [], Query = [], Body = OtherBody\<rparr>
     = (FileContent ''a.txt'' ''0123456789'',
        world_ex\<lparr>calls := [StatCall ''uploads/docs/a.txt'', ServeFileCall ''uploads/docs/a.txt'']\<rparr>)
   \<and> (\<exists>rel. Rel uploadPath ''uploads/docs/a.txt'' = Inr rel \<and> hd (split_sep rel) \<noteq> ''..'')
   \<and> under_root [''srv'', ''app''] ''uploads/docs/a.txt''"
proof -
  have run: "handleDownload world_ex \<lparr>Method = ''GET'', URL_Path = ''/download/docs/a.txt'', RawQuery = [], Query = [], Body = OtherBody\<rparr>
     = (FileContent ''a.txt'' ''0123456789'',
        world_ex\<lparr>calls := [StatCall ''uploads/docs/a.txt'', ServeFileCall ''uploads/docs/a.txt'']\<rparr>)"
    by code_simp
  have c0: "calls world_ex = []" and wd: "cwd world_ex = [''srv'', ''app'']"
    by (simp_all add: world_ex_def)
  from guarded_handlers_stay_in_root[of handleDownload, OF _ run]
  obtain new where n: "calls (world_ex\<lparr>calls := [StatCall ''uploads/docs/a.txt'', ServeFileCall ''uploads/docs/a.txt'']\<rparr>) = calls world_ex @ new"
    and a: "\<forall>c\<in>set new.
              (\<exists>rel. Rel uploadPath (call_path c) = Inr rel \<and> hd (split_sep rel) \<noteq> ''..'')
              \<and> under_root (cwd world_ex) (call_path c)"
    by blast
  from n c0 have "new = [StatCall ''uploads/docs/a.txt'', ServeFileCall ''uploads/docs/a.txt'']" by simp
  with a wd have "(\<exists>rel. Rel uploadPath ''uploads/docs/a.txt'' = Inr rel \<and> hd (split_sep rel) \<noteq> ''..'')
   \<and> under_root [''srv'', ''app''] ''uploads/docs/a.txt''" by simp
  with run show ?thesis by blast
qed

section \<open>Paths that leave the storage root are rejected\<close>

lemma files_rejected:
  assumes "\<not> under_root (cwd w) (Join [uploadPath, Clean (if Get (Query r) ''path'' = [] then ''/'' else Get (Query r) ''path'')])"
  shows "handleAPIFiles w r = (JSONError ''Invalid path'' 400, w)"
proof -
  define fullPath where "fullPath = Join [uploadPath, Clean (if Get (Query r) ''path'' = [] then ''/'' else Get (Query r) ''path'')]"
  have ng: "\<not> (\<exists>rel. Rel uploadPath fullPath = Inr rel \<and> \<not> HasPrefix rel ''..'')"
  proof
    assume "\<exists>rel. Rel uploadPath fullPath = Inr rel \<and> \<not> HasPrefix rel ''..''"
    then obtain rel where "Rel uploadPath fullPath = Inr rel" "\<not> HasPrefix rel ''..''" by blast
    hence "within_root fullPath" unfolding fullPath_def by (rule guard_Join)
    hence "under_root (cwd w) fullPath" by (rule within_under)
    with assms show False by (simp add: fullPath_def)
  qed
  have "handleAPIFiles w r = (case Rel uploadPath fullPath of
            Inl err \<Rightarrow> (sendJSONError ''Invalid path'' 400, w)
          | Inr relPath \<Rightarrow>
              if HasPrefix relPath ''..'' then (sendJSONError ''Invalid path'' 400, w)
              else
                (case os_ReadDir w fullPath of
                   (Inl err, w1) \<Rightarrow>
                     if IsNotExist err then (JSONFiles (if Get (Query r) ''path'' = [] then ''/'' else Get (Query r) ''path'') [], w1)
                     else (sendJSONError ''Failed to read directory'' 500, w1)
                 | (Inr files, w1) \<Rightarrow>
                     (JSONFiles (if Get (Query r) ''path'' = [] then ''/'' else Get (Query r) ''path'') (map (file_entry (if Get (Query r) ''path'' = [] then ''/'' else Get (Query r) ''path'')) files), w1)))"
    unfolding handleAPIFiles_def Let_def fullPath_def by (rule refl)
  with ng show ?thesis by (auto simp: sendJSONError_def split: sum.splits)
qed

lemmas eval_paths = Get_def Join_def Clean_def clean_step_def Rel_def rel_elems_def
  uploadPath_def Separator_def HasPrefix_def sendJSONError_def

lemma handleAPIFiles_guarded:
  assumes "dirPath = (if Get (Query r) ''path'' = [] then ''/'' else Get (Query r) ''path'')"
    and "fullPath = Join [uploadPath, Clean dirPath]"
    and "Rel uploadPath fullPath = Inr rel" and "\<not> HasPrefix rel ''..''"
  shows "handleAPIFiles w r =
          (case os_ReadDir w fullPath of
             (Inl err, w1) \<Rightarrow>
               if IsNotExist err then (JSONFiles dirPath [], w1)
               else (sendJSONError ''Failed to read directory'' 500, w1)
           | (Inr files, w1) \<Rightarrow> (JSONFiles dirPath (map (file_entry dirPath) files), w1))"
proof -
  have "handleAPIFiles w r = (case Rel uploadPath fullPath of
            Inl err \<Rightarrow> (sendJSONError ''Invalid path'' 400, w)
          | Inr relPath \<Rightarrow>
              if HasPrefix relPath ''..'' then (sendJSONError ''Invalid path'' 400, w)
              else
                (case os_ReadDir w fullPath of
                   (Inl err, w1) \<Rightarrow>
                     if IsNotExist err then (JSONFiles dirPath [], w1)
                     else (sendJSONError ''Failed to read directory'' 500, w1)
                 | (Inr files, w1) \<Rightarrow>
                     (JSONFiles dirPath (map (file_entry dirPath) files), w1)))"
    unfolding handleAPIFiles_def Let_def assms(1,2) by (rule refl)
  with assms(3,4) show ?thesis by simp
qed

lemma Clean_rooted:
  assumes "p \<noteq> []" and "hd p = Separator"
  shows "\<exists>out. clean_ok True out \<and> Clean p = Separator # join_sep out"
proof -
  define out where "out = foldl (clean_step True) [] (split_sep p)"
  have ok: "clean_ok True out"
    unfolding out_def by (rule foldl_clean_ok) (auto simp: clean_ok_Nil split_sep_no_sep)
  have "Clean p = Separator # join_sep out"
    using assms by (simp add: Clean_def Let_def out_def)
  with ok show ?thesis by blast
qed

lemma Join_upload_rooted:
  assumes ok: "clean_ok True out"
  shows "Join [uploadPath, Separator # join_sep out] = join_sep (''uploads'' # out)"
proof -
  have nosep: "\<forall>x\<in>set out. Separator \<notin> set x" using ok by (auto simp: clean_ok_def good_elem_def)
  have nd: "''..'' \<notin> set out" using ok by (simp add: clean_ok_def)
  have J: "Join [uploadPath, Separator # join_sep out]
             = Clean (''.'' @ Separator # ''uploads'' @ Separator # [] @ Separator # join_sep out)"
    by (simp add: Join_def uploadPath_def Separator_def)
  have a1: "Separator \<notin> set ''.''" and a2: "Separator \<notin> set ''uploads''"
    and a3: "Separator \<notin> set ([] :: string)"
    by (simp_all add: Separator_def)
  have sp: "split_sep (''.'' @ Separator # ''uploads'' @ Separator # [] @ Separator # join_sep out)
             = ''.'' # ''uploads'' # [] # split_sep (join_sep out)"
    unfolding split_sep_append[OF a1] split_sep_append[OF a2] split_sep_append[OF a3]
    by (rule refl)
  have up: "clean_ok False (''uploads'' # out)"
    using ok nd by (auto simp: clean_ok_def good_elem_def Separator_def)
  have fl: "foldl (clean_step False) [] (''.'' # ''uploads'' # [] # split_sep (join_sep out))
             = ''uploads'' # out"
  proof (cases "out = []")
    case True
    then show ?thesis by (simp add: clean_step_def)
  next
    case False
    hence "split_sep (join_sep out) = out" using nosep by (simp add: split_join)
    moreover have "foldl (clean_step False) [''uploads''] out = [''uploads''] @ out"
      by (rule foldl_clean_id) (use up in simp)
    ultimately show ?thesis by (simp add: clean_step_def)
  qed
  have ne: "join_sep (''uploads'' # out) \<noteq> []" by (simp add: join_sep_Cons)
  define X where "X = ''.'' @ Separator # ''uploads'' @ Separator # [] @ Separator # join_sep out"
  have hx: "X \<noteq> [] \<and> hd X \<noteq> Separator" by (simp add: X_def Separator_def)
  have "Clean X = (if join_sep (foldl (clean_step False) [] (split_sep X)) = [] then ''.''
                   else join_sep (foldl (clean_step False) [] (split_sep X)))"
    using hx by (simp add: Clean_def Let_def)
  also have "foldl (clean_step False) [] (split_sep X) = ''uploads'' # out"
    unfolding X_def sp by (rule fl)
  finally have "Clean X = join_sep (''uploads'' # out)" using ne by simp
  then show ?thesis unfolding J X_def .
qed

lemma rooted_within:
  assumes "p \<noteq> []" and "hd p = Separator"
  shows "within_root (Join [uploadPath, Clean p])"
proof -
  from Clean_rooted[OF assms] obtain out where ok: "clean_ok True out"
    and C: "Clean p = Separator # join_sep out" by blast
  have nosep: "\<forall>x\<in>set (''uploads'' # out). Separator \<notin> set x"
    using ok by (auto simp: clean_ok_def good_elem_def Separator_def)
  have nd: "''..'' \<notin> set out" using ok by (simp add: clean_ok_def)
  have "split_sep (join_sep (''uploads'' # out)) = ''uploads'' # out"
    using nosep by (intro split_join) auto
  with nd show ?thesis
    unfolding C Join_upload_rooted[OF ok] by (simp add: within_root_def)
qed

text \<open>
  Claim C2, as amended.  A listing request whose logical path, normalised and joined to
  the storage root, denotes a place outside the storage root is answered with status
  400 and the error \<^verbatim>\<open>Invalid path\<close>, and no filesystem call is made; this is so for
  the relative path \<^verbatim>\<open>../../etc\<close>.  A logical path that starts with a separator never
  denotes such a place: normalisation drops \<^verbatim>\<open>..\<close> elements at the root, and the joined
  path lies under the storage root.  The path \<^verbatim>\<open>/../../etc\<close> of the claim is never
  answered with \<^verbatim>\<open>Invalid path\<close>: on every filesystem the handler reads \<^verbatim>\<open>uploads/etc\<close>
  and answers according to that read, with the successful empty listing when
  \<^verbatim>\<open>uploads/etc\<close> does not exist, with status 500 on another read failure, and with the
  entries otherwise.
\<close>

theorem escaping_listing_rejected:
  assumes "dirPath = (if Get (Query r) ''path'' = [] then ''/'' else Get (Query r) ''path'')"
  shows "(\<not> under_root (cwd w) (Join [uploadPath, Clean dirPath]) \<longrightarrow>
            handleAPIFiles w r = (JSONError ''Invalid path'' 400, w))
       \<and> (dirPath = ''../../etc'' \<longrightarrow> handleAPIFiles w r = (JSONError ''Invalid path'' 400, w))
       \<and> (hd dirPath = Separator \<longrightarrow> under_root (cwd w) (Join [uploadPath, Clean dirPath]))
       \<and> (dirPath = ''/../../etc'' \<longrightarrow>
            handleAPIFiles w r =
              (case os_ReadDir w ''uploads/etc'' of
                 (Inl err, w1) \<Rightarrow>
                   if IsNotExist err then (JSONFiles dirPath [], w1)
                   else (sendJSONError ''Failed to read directory'' 500, w1)
               | (Inr files, w1) \<Rightarrow> (JSONFiles dirPath (map (file_entry dirPath) files), w1))
            \<and> fst (handleAPIFiles w r) \<noteq> JSONError ''Invalid path'' 400
            \<and> (lookup (root w) (abspath (cwd w) ''uploads/etc'') = Inl ENOENT \<longrightarrow>
                 fst (handleAPIFiles w r) = JSONFiles ''/../../etc'' []))"
proof -
  have a: "\<not> under_root (cwd w) (Join [uploadPath, Clean dirPath]) \<longrightarrow>
            handleAPIFiles w r = (JSONError ''Invalid path'' 400, w)"
    using files_rejected[of w r] unfolding assms by blast
  have b: "dirPath = ''../../etc'' \<longrightarrow> handleAPIFiles w r = (JSONError ''Invalid path'' 400, w)"
  proof
    assume d: "dirPath = ''../../etc''"
    have "\<not> under_root (cwd w) (Join [uploadPath, Clean ''../../etc''])"
    proof
      assume "under_root (cwd w) (Join [uploadPath, Clean ''../../etc''])"
      hence "prefix (cwd w @ [''uploads'']) (butlast (cwd w) @ [''etc''])"
        by (simp add: under_root_def abspath_uploadPath abspath_def walk_step_def eval_paths)
      then obtain zs where z: "butlast (cwd w) @ [''etc''] = cwd w @ [''uploads''] @ zs"
        by (auto simp: prefix_def)
      hence "length (butlast (cwd w) @ [''etc'']) = length (cwd w @ [''uploads''] @ zs)" by simp
      hence "length (cwd w) - 1 = length (cwd w) + length zs" by simp
      hence "length (cwd w) = 0 \<and> length zs = 0" by arith
      hence "cwd w = [] \<and> zs = []" by simp
      with z show False by simp
    qed
    with a d show "handleAPIFiles w r = (JSONError ''Invalid path'' 400, w)" by simp
  qed
  have c: "hd dirPath = Separator \<longrightarrow> under_root (cwd w) (Join [uploadPath, Clean dirPath])"
  proof
    assume h: "hd dirPath = Separator"
    have "dirPath \<noteq> []" unfolding assms by simp
    from rooted_within[OF this h] show "under_root (cwd w) (Join [uploadPath, Clean dirPath])"
      by (rule within_under)
  qed
  have d: "dirPath = ''/../../etc'' \<longrightarrow>
            handleAPIFiles w r =
              (case os_ReadDir w ''uploads/etc'' of
                 (Inl err, w1) \<Rightarrow>
                   if IsNotExist err then (JSONFiles dirPath [], w1)
                   else (sendJSONError ''Failed to read directory'' 500, w1)
               | (Inr files, w1) \<Rightarrow> (JSONFiles dirPath (map (file_entry dirPath) files), w1))
            \<and> fst (handleAPIFiles w r) \<noteq> JSONError ''Invalid path'' 400
            \<and> (lookup (root w) (abspath (cwd w) ''uploads/etc'') = Inl ENOENT \<longrightarrow>
                 fst (handleAPIFiles w r) = JSONFiles ''/../../etc'' [])"
  proof
    assume e: "dirPath = ''/../../etc''"
    have f: "''uploads/etc'' = Join [uploadPath, Clean dirPath]"
      unfolding e by (simp add: eval_paths)
    have R: "Rel uploadPath ''uploads/etc'' = Inr ''etc''" by (simp add: eval_paths)
    have np: "\<not> HasPrefix ''etc'' ''..''" by (simp add: HasPrefix_def)
    note H = handleAPIFiles_guarded[OF assms f R np, of w]
    have n4: "fst (handleAPIFiles w r) \<noteq> JSONError ''Invalid path'' 400"
      unfolding H by (cases "os_ReadDir w ''uploads/etc''")
        (auto simp: sendJSONError_def split: sum.splits)
    have ne: "lookup (root w) (abspath (cwd w) ''uploads/etc'') = Inl ENOENT \<longrightarrow>
                 fst (handleAPIFiles w r) = JSONFiles ''/../../etc'' []"
      unfolding H by (simp add: os_ReadDir_def IsNotExist_def e)
    from H n4 ne show "handleAPIFiles w r =
              (case os_ReadDir w ''uploads/etc'' of
                 (Inl err, w1) \<Rightarrow>
                   if IsNotExist err then (JSONFiles dirPath [], w1)
                   else (sendJSONError ''Failed to read directory'' 500, w1)
               | (Inr files, w1) \<Rightarrow> (JSONFiles dirPath (map (file_entry dirPath) files), w1))
            \<and> fst (handleAPIFiles w r) \<noteq> JSONError ''Invalid path'' 400
            \<and> (lookup (root w) (abspath (cwd w) ''uploads/etc'') = Inl ENOENT \<longrightarrow>
                 fst (handleAPIFiles w r) = JSONFiles ''/../../etc'' [])"
      by blast
  qed
  from a b c d show ?thesis by blast
qed

text \<open>
  Three requests on the example filesystem: one whose path leaves the storage root and
  is rejected, the relative \<^verbatim>\<open>../../etc\<close>, rejected as well, and the rooted
  \<^verbatim>\<open>/../../etc\<close>, which lies under the storage root and is answered with an empty
  listing because \<^verbatim>\<open>uploads/etc\<close> does not exist.
\<close>

theorem escaping_listing_rejected_witness:
  "\<not> under_root (cwd world_ex) (Join [uploadPath, Clean ''a/../../../srv/secret''])
   \<and> handleAPIFiles world_ex \<lparr>Method = ''GET'', URL_Path = ''/api/files'', RawQuery = ''path=a/../../../srv/secret'', Query = [(''path'', ''a/../../../srv/secret'')], Body = OtherBody\<rparr>
       = (JSONError ''Invalid path'' 400, world_ex)
   \<and> handleAPIFiles world_ex \<lparr>Method = ''GET'', URL_Path = ''/api/files'', RawQuery = ''path=../../etc'', Query = [(''path'', ''../../etc'')], Body = OtherBody\<rparr>
       = (JSONError ''Invalid path'' 400, world_ex)
   \<and> hd ''/../../etc'' = Separator
   \<and> under_root (cwd world_ex) (Join [uploadPath, Clean ''/../../etc''])
   \<and> lookup (root world_ex) (abspath (cwd world_ex) ''uploads/etc'') = Inl ENOENT
   \<and> fst (handleAPIFiles world_ex \<lparr>Method = ''GET'', URL_Path = ''/api/files'', RawQuery = ''path=/../../etc'', Query = [(''path'', ''/../../etc'')], Body = OtherBody\<rparr>)
       = JSONFiles ''/../../etc'' []"
proof -
  let ?r1 = "\<lparr>Method = ''GET'', URL_Path = ''/api/files'', RawQuery = ''path=a/../../../srv/secret'', Query = [(''path'', ''a/../../../srv/secret'')], Body = OtherBody\<rparr>"
  let ?r2 = "\<lparr>Method = ''GET'', URL_Path = ''/api/files'', RawQuery = ''path=../../etc'', Query = [(''path'', ''../../etc'')], Body = OtherBody\<rparr>"
  let ?r3 = "\<lparr>Method = ''GET'', URL_Path = ''/api/files'', RawQuery = ''path=/../../etc'', Query = [(''path'', ''/../../etc'')], Body = OtherBody\<rparr>"
  have h: "\<not> under_root (cwd world_ex) (Join [uploadPath, Clean ''a/../../../srv/secret''])"
    by code_simp
  have q1: "''a/../../../srv/secret'' = (if Get (Query ?r1) ''path'' = [] then ''/'' else Get (Query ?r1) ''path'')"
    by (simp add: Get_def)
  have q2: "''../../etc'' = (if Get (Query ?r2) ''path'' = [] then ''/'' else Get (Query ?r2) ''path'')"
    by (simp add: Get_def)
  have q3: "''/../../etc'' = (if Get (Query ?r3) ''path'' = [] then ''/'' else Get (Query ?r3) ''path'')"
    by (simp add: Get_def)
  have s: "hd ''/../../etc'' = Separator" by (simp add: Separator_def)
  have l: "lookup (root world_ex) (abspath (cwd world_ex) ''uploads/etc'') = Inl ENOENT"
    by code_simp
  from escaping_listing_rejected[OF q1, of world_ex] h
  have 1: "handleAPIFiles world_ex ?r1 = (JSONError ''Invalid path'' 400, world_ex)" by blast
  from escaping_listing_rejected[OF q2, of world_ex]
  have 2: "handleAPIFiles world_ex ?r2 = (JSONError ''Invalid path'' 400, world_ex)" by blast
  from escaping_listing_rejected[OF q3, of world_ex] s
  have 3: "under_root (cwd world_ex) (Join [uploadPath, Clean ''/../../etc''])" by blast
  from escaping_listing_rejected[OF q3, of world_ex] l
  have 4: "fst (handleAPIFiles world_ex ?r3) = JSONFiles ''/../../etc'' []" by blast
  from h 1 2 s 3 l 4 show ?thesis by blast
qed

text \<open>
  The request of the claim, \<^verbatim>\<open>GET /api/files?path=/../../etc\<close>, on a filesystem without
  \<^verbatim>\<open>uploads/etc\<close>: the handler reads that directory and answers with a successful empty
  listing, not with \<^verbatim>\<open>Invalid path\<close>.
\<close>

theorem listing_traversal_example_counterexample:
  "handleAPIFiles world_ex \<lparr>Method = ''GET'', URL_Path = ''/api/files'', RawQuery = ''path=/../../etc'', Query = [(''path'', ''/../../etc'')], Body = OtherBody\<rparr>
     = (JSONFiles ''/../../etc'' [], world_ex\<lparr>calls := [ReadDirCall ''uploads/etc'']\<rparr>)
   \<and> fst (handleAPIFiles world_ex \<lparr>Method = ''GET'', URL_Path = ''/api/files'', RawQuery = ''path=/../../etc'', Query = [(''path'', ''/../../etc'')], Body = OtherBody\<rparr>)
     \<noteq> JSONError ''Invalid path'' 400"
  by code_simp

section \<open>Listing a directory that does not exist\<close>

text \<open>
  Claim C5.  For a listing request whose path passes the confinement guard: when the
  directory does not exist the answer is the successful listing with an empty file
  list; a read failure of any other kind is answered with status 500; and a directory
  that is read is answered with its entries.
\<close>

theorem listing_absent_directory:
  assumes "dirPath = (if Get (Query r) ''path'' = [] then ''/'' else Get (Query r) ''path'')"
    and "fullPath = Join [uploadPath, Clean dirPath]"
    and "Rel uploadPath fullPath = Inr rel" and "\<not> HasPrefix rel ''..''"
  shows "(lookup (root w) (abspath (cwd w) fullPath) = Inl ENOENT \<longrightarrow>
            fst (handleAPIFiles w r) = JSONFiles dirPath []
            \<and> status (fst (handleAPIFiles w r)) = 200)
       \<and> (\<forall>e. fst (os_ReadDir w fullPath) = Inl e \<and> e \<noteq> ENOENT \<longrightarrow>
            fst (handleAPIFiles w r) = JSONError ''Failed to read directory'' 500)
       \<and> (\<forall>files. fst (os_ReadDir w fullPath) = Inr files \<longrightarrow>
            fst (handleAPIFiles w r) = JSONFiles dirPath (map (file_entry dirPath) files))"
proof -
  note H = handleAPIFiles_guarded[OF assms, of w]
  have a: "lookup (root w) (abspath (cwd w) fullPath) = Inl ENOENT \<longrightarrow>
            fst (handleAPIFiles w r) = JSONFiles dirPath []
            \<and> status (fst (handleAPIFiles w r)) = 200"
    unfolding H by (simp add: os_ReadDir_def IsNotExist_def)
  have b: "\<forall>e. fst (os_ReadDir w fullPath) = Inl e \<and> e \<noteq> ENOENT \<longrightarrow>
            fst (handleAPIFiles w r) = JSONError ''Failed to read directory'' 500"
    unfolding H by (cases "os_ReadDir w fullPath") (auto simp: IsNotExist_def sendJSONError_def)
  have c: "\<forall>files. fst (os_ReadDir w fullPath) = Inr files \<longrightarrow>
            fst (handleAPIFiles w r) = JSONFiles dirPath (map (file_entry dirPath) files)"
    unfolding H by (cases "os_ReadDir w fullPath") auto
  from a b c show ?thesis by blast
qed

theorem listing_absent_directory_witness:
  "Rel uploadPath (Join [uploadPath, Clean ''/never/created'']) = Inr ''never/created''
   \<and> \<not> HasPrefix ''never/created'' ''..''
   \<and> lookup (root world_ex) (abspath (cwd world_ex) (Join [uploadPath, Clean ''/never/created''])) = Inl ENOENT
   \<and> fst (handleAPIFiles world_ex \<lparr>Method = ''GET'', URL_Path = ''/api/files'', RawQuery = ''path=/never/created'', Query = [(''path'', ''/never/created'')], Body = OtherBody\<rparr>)
       = JSONFiles ''/never/created'' []"
proof -
  let ?r = "\<lparr>Method = ''GET'', URL_Path = ''/api/files'', RawQuery = ''path=/never/created'', Query = [(''path'', ''/never/created'')], Body = OtherBody\<rparr>"
  have d: "''/never/created'' = (if Get (Query ?r) ''path'' = [] then ''/'' else Get (Query ?r) ''path'')"
    by (simp add: Get_def)
  have g: "Rel uploadPath (Join [uploadPath, Clean ''/never/created'']) = Inr ''never/created''"
    by code_simp
  have n: "\<not> HasPrefix ''never/created'' ''..''" by code_simp
  have l: "lookup (root world_ex) (abspath (cwd world_ex) (Join [uploadPath, Clean ''/never/created''])) = Inl ENOENT"
    by code_simp
  from listing_absent_directory[OF d refl g n, of world_ex] l
  have "fst (handleAPIFiles world_ex ?r) = JSONFiles ''/never/created'' []" by blast
  with g n l show ?thesis by blast
qed

section \<open>Creating directories\<close>

lemma mkdir_all_idem: "mkdir_all n p = Inr n' \<Longrightarrow> mkdir_all n' p = Inr n'"
proof (induction p arbitrary: n n')
  case Nil
  then show ?case by (cases n) auto
next
  case (Cons x xs)
  then obtain es where n: "n = DirNode es" by (cases n) auto
  define ch where "ch = (case map_of es x of None \<Rightarrow> DirNode [] | Some c \<Rightarrow> c)"
  from Cons.prems n obtain ch' where m: "mkdir_all ch xs = Inr ch'"
    and n': "n' = DirNode (AList.update x ch' es)"
    by (auto simp: ch_def split: sum.splits)
  have "mkdir_all ch' xs = Inr ch'" using Cons.IH[OF m] .
  then show ?case by (simp add: n' update_conv')
qed

lemma mkdir_all_is_dir: "mkdir_all n p = Inr n' \<Longrightarrow> \<exists>es. lookup n' p = Inr (DirNode es)"
proof (induction p arbitrary: n n')
  case Nil
  then show ?case by (cases n) auto
next
  case (Cons x xs)
  then obtain es where n: "n = DirNode es" by (cases n) auto
  define ch where "ch = (case map_of es x of None \<Rightarrow> DirNode [] | Some c \<Rightarrow> c)"
  from Cons.prems n obtain ch' where m: "mkdir_all ch xs = Inr ch'"
    and n': "n' = DirNode (AList.update x ch' es)"
    by (auto simp: ch_def split: sum.splits)
  from Cons.IH[OF m] show ?case by (simp add: n' update_conv')
qed

lemma handleAPIMkdir_success:
  assumes "handleAPIMkdir w r = (JSONMessage m, w1)"
  shows "\<exists>rb fullPath rel n.
           Method r = ''POST'' \<and> json_Decode (Body r) = Inr rb \<and> Name rb \<noteq> []
         \<and> fullPath = Join [uploadPath, Clean (Path rb), Name rb]
         \<and> Rel uploadPath fullPath = Inr rel \<and> \<not> HasPrefix rel ''..''
         \<and> mkdir_all (root w) (abspath (cwd w) fullPath) = Inr n
         \<and> w1 = w\<lparr>root := n, calls := calls w @ [MkdirAllCall fullPath]\<rparr>
         \<and> m = ''Directory '' @ [CHR 0x27] @ Name rb @ [CHR 0x27] @ '' created successfully''"
  using assms unfolding handleAPIMkdir_def Let_def os_MkdirAll_def sendJSONError_def
  by (auto split: if_splits sum.splits option.splits prod.splits)

lemma handleAPIMkdir_run:
  assumes "Method r = ''POST''" and "json_Decode (Body r) = Inr rb" and "Name rb \<noteq> []"
    and "Rel uploadPath (Join [uploadPath, Clean (Path rb), Name rb]) = Inr rel"
    and "\<not> HasPrefix rel ''..''"
    and "mkdir_all (root w) (abspath (cwd w) (Join [uploadPath, Clean (Path rb), Name rb])) = Inr n"
  shows "handleAPIMkdir w r =
           (JSONMessage (''Directory '' @ [CHR 0x27] @ Name rb @ [CHR 0x27] @ '' created successfully''),
            w\<lparr>root := n, calls := calls w @ [MkdirAllCall (Join [uploadPath, Clean (Path rb), Name rb])]\<rparr>)"
  using assms unfolding handleAPIMkdir_def Let_def os_MkdirAll_def by simp

text \<open>
  Claim C7.  Creating a directory is idempotent: when a mkdir request has succeeded
  (so its parent path was validated and its name was not empty), the same request
  made again on the resulting filesystem succeeds with the same answer and leaves the
  filesystem as it was.
\<close>

theorem mkdir_idempotent:
  assumes "handleAPIMkdir w r = (JSONMessage m, w1)"
  shows "\<exists>w2. handleAPIMkdir w1 r = (JSONMessage m, w2) \<and> root w2 = root w1 \<and> cwd w2 = cwd w1"
proof -
  from handleAPIMkdir_success[OF assms] obtain rb fullPath rel n where
    p: "Method r = ''POST''" and d: "json_Decode (Body r) = Inr rb" and nm: "Name rb \<noteq> []"
    and f: "fullPath = Join [uploadPath, Clean (Path rb), Name rb]"
    and R: "Rel uploadPath fullPath = Inr rel" and np: "\<not> HasPrefix rel ''..''"
    and mk: "mkdir_all (root w) (abspath (cwd w) fullPath) = Inr n"
    and w1: "w1 = w\<lparr>root := n, calls := calls w @ [MkdirAllCall fullPath]\<rparr>"
    and m: "m = ''Directory '' @ [CHR 0x27] @ Name rb @ [CHR 0x27] @ '' created successfully''"
    by blast
  have again: "mkdir_all (root w1) (abspath (cwd w1) (Join [uploadPath, Clean (Path rb), Name rb])) = Inr n"
    using mkdir_all_idem[OF mk] by (simp add: w1 f)
  from handleAPIMkdir_run[OF p d nm R[unfolded f] np again]
  show ?thesis by (simp add: m w1)
qed

theorem mkdir_idempotent_witness:
  "\<exists>m w1 w2.
     handleAPIMkdir world_ex \<lparr>Method = ''POST'', URL_Path = ''/api/mkdir'', RawQuery = [], Query = [], Body = JSONBody ''/docs'' ''reports''\<rparr>
       = (JSONMessage m, w1)
   \<and> lookup (root world_ex) [''srv'', ''app'', ''uploads'', ''docs'', ''reports''] = Inl ENOENT
   \<and> lookup (root w1) [''srv'', ''app'', ''uploads'', ''docs'', ''reports''] = Inr (DirNode [])
   \<and> handleAPIMkdir w1 \<lparr>Method = ''POST'', URL_Path = ''/api/mkdir'', RawQuery = [], Query = [], Body = JSONBody ''/docs'' ''reports''\<rparr>
       = (JSONMessage m, w2)
   \<and> root w2 = root w1"
proof -
  let ?r = "\<lparr>Method = ''POST'', URL_Path = ''/api/mkdir'', RawQuery = [], Query = [], Body = JSONBody ''/docs'' ''reports''\<rparr>"
  let ?w1 = "\<lparr>root = DirNode [(''srv'', DirNode [(''app'', DirNode [(''uploads'',
            DirNode [(''index.html'', FileNode ''hi''),
                     (''docs'', DirNode [(''a.txt'', FileNode ''0123456789''), (''reports'', DirNode [])])])])])],
         cwd = [''srv'', ''app''], calls = [MkdirAllCall ''uploads/docs/reports'']\<rparr>"
  let ?m = "''Directory '' @ [CHR 0x27] @ ''reports'' @ [CHR 0x27] @ '' created successfully''"
  have run: "handleAPIMkdir world_ex ?r = (JSONMessage ?m, ?w1)"
    by code_simp
  have before: "lookup (root world_ex) [''srv'', ''app'', ''uploads'', ''docs'', ''reports''] = Inl ENOENT"
    by code_simp
  have after: "lookup (root ?w1) [''srv'', ''app'', ''uploads'', ''docs'', ''reports''] = Inr (DirNode [])"
    by code_simp
  from mkdir_idempotent[OF run] obtain w2 where
    "handleAPIMkdir ?w1 ?r = (JSONMessage ?m, w2)" and "root w2 = root ?w1" by blast
  with run before after show ?thesis by blast
qed

section \<open>An upload without its file part\<close>

text \<open>
  Claim C10.  An upload request that parses as a multipart form but has no part named
  \<^verbatim>\<open>file\<close> is answered with the client error 400, and by then the directory chain named
  by its \<^verbatim>\<open>path\<close> field has been created: the filesystem returned with the error is the
  one after \<^verbatim>\<open>os.MkdirAll\<close>, in which the target is a directory, and \<^verbatim>\<open>MkdirAll\<close> is the one
  filesystem call made.  (The directory creation is assumed to succeed; when it fails the
  handler answers 500 before it looks for the file part.)
\<close>

theorem upload_without_file_creates_directory:
  assumes "Method r = ''POST''"
    and "Body r = MultipartBody vs fs"
    and "map_of fs ''file'' = None"
    and "dirPath = (if Get (Query r @ vs) ''path'' = [] then ''/'' else Get (Query r @ vs) ''path'')"
    and "fullDirPath = Join [uploadPath, Clean dirPath]"
    and "mkdir_all (root w) (abspath (cwd w) fullDirPath) = Inr n"
  shows "handleAPIUpload w r =
           (JSONError ''Failed to get file from form'' 400,
            w\<lparr>root := n, calls := calls w @ [MkdirAllCall fullDirPath]\<rparr>)
       \<and> (\<exists>es. lookup n (abspath (cwd w) fullDirPath) = Inr (DirNode es))"
proof -
  have "handleAPIUpload w r =
           (JSONError ''Failed to get file from form'' 400,
            w\<lparr>root := n, calls := calls w @ [MkdirAllCall fullDirPath]\<rparr>)"
  proof -
    have P: "ParseMultipartForm maxMemory r = Inr \<lparr>Value = vs, File = fs\<rparr>" for maxMemory
      using assms(2) by (simp add: ParseMultipartForm_def)
    have V: "(if FormValue r \<lparr>Value = vs, File = fs\<rparr> ''path'' = [] then ''/''
              else FormValue r \<lparr>Value = vs, File = fs\<rparr> ''path'') = dirPath"
      unfolding assms(4) by (simp add: FormValue_def)
    have F: "FormFile \<lparr>Value = vs, File = fs\<rparr> ''file'' = Inl ErrMissingFile"
      using assms(3) by (simp add: FormFile_def)
    have M: "os_MkdirAll w (Join [uploadPath, Clean dirPath])
               = (None, w\<lparr>root := n, calls := calls w @ [MkdirAllCall fullDirPath]\<rparr>)"
      using assms(6) unfolding assms(5) by (simp add: os_MkdirAll_def)
    show ?thesis
      using assms(1)
      by (simp add: handleAPIUpload_def P Let_def V M F sendJSONError_def split del: if_split)
  qed
  with mkdir_all_is_dir[OF assms(6)] show ?thesis by simp
qed

theorem upload_without_file_creates_directory_witness:
  "lookup (root world_ex) [''srv'', ''app'', ''uploads'', ''new''] = Inl ENOENT
   \<and> mkdir_all (root world_ex) (abspath (cwd world_ex) (Join [uploadPath, Clean ''/new/dir'']))
       = Inr (DirNode [(''srv'', DirNode [(''app'', DirNode [(''uploads'',
            DirNode [(''index.html'', FileNode ''hi''),
                     (''docs'', DirNode [(''a.txt'', FileNode ''0123456789'')]),
                     (''new'', DirNode [(''dir'', DirNode [])])])])])])
   \<and> handleAPIUpload world_ex
        \<lparr>Method = ''POST'', URL_Path = ''/api/upload'', RawQuery = [], Query = [],
          Body = MultipartBody [(''path'', ''/new/dir'')] []\<rparr>
       = (JSONError ''Failed to get file from form'' 400,
          world_ex\<lparr>root := DirNode [(''srv'', DirNode [(''app'', DirNode [(''uploads'',
            DirNode [(''index.html'', FileNode ''hi''),
                     (''docs'', DirNode [(''a.txt'', FileNode ''0123456789'')]),
                     (''new'', DirNode [(''dir'', DirNode [])])])])])],
            calls := calls world_ex @ [MkdirAllCall (Join [uploadPath, Clean ''/new/dir''])]\<rparr>)"
proof -
  let ?r = "\<lparr>Method = ''POST'', URL_Path = ''/api/upload'', RawQuery = [], Query = [],
          Body = MultipartBody [(''path'', ''/new/dir'')] []\<rparr>"
  have a: "Method ?r = ''POST''" by simp
  have b: "Body ?r = MultipartBody [(''path'', ''/new/dir'')] []" by simp
  have c: "map_of ([] :: (string \<times> file_part) list) ''file'' = None" by simp
  have d: "''/new/dir'' = (if Get (Query ?r @ [(''path'', ''/new/dir'')]) ''path'' = [] then ''/''
            else Get (Query ?r @ [(''path'', ''/new/dir'')]) ''path'')"
    by (simp add: Get_def)
  have e: "mkdir_all (root world_ex) (abspath (cwd world_ex) (Join [uploadPath, Clean ''/new/dir'']))
       = Inr (DirNode [(''srv'', DirNode [(''app'', DirNode [(''uploads'',
            DirNode [(''index.html'', FileNode ''hi''),
                     (''docs'', DirNode [(''a.txt'', FileNode ''0123456789'')]),
                     (''new'', DirNode [(''dir'', DirNode [])])])])])])"
    by code_simp
  have f: "lookup (root world_ex) [''srv'', ''app'', ''uploads'', ''new''] = Inl ENOENT"
    by code_simp
  from upload_without_file_creates_directory[OF a b c d refl e] e f
  show ?thesis by blast
qed

section \<open>Downloads\<close>

lemma handleDownload_guarded:
  assumes "Method r = ''GET''"
    and "filePath = (if TrimPrefix (URL_Path r) ''/download'' = [] then ''/''
                     else TrimPrefix (URL_Path r) ''/download'')"
    and "fullPath = Join [uploadPath, Clean filePath]"
    and "Rel uploadPath fullPath = Inr rel" and "\<not> HasPrefix rel ''..''"
  shows "handleDownload w r =
          (case os_Stat w fullPath of
             (Inl err, w1) \<Rightarrow> (HTTPError ''File not found'' 404, w1)
           | (Inr fileInfo, w1) \<Rightarrow>
               if is_dir fileInfo \<and> filePath \<noteq> ''/''
               then (Redirect (''/?path='' @ filePath) 302, w1)
               else http_ServeFile w1 r fullPath)"
proof -
  have "handleDownload w r =
     (case Rel uploadPath fullPath of
        Inl err \<Rightarrow> (HTTPError ''Invalid path'' 400, w)
      | Inr relPath \<Rightarrow>
          if HasPrefix relPath ''..'' then (HTTPError ''Invalid path'' 400, w)
          else
            (case os_Stat w fullPath of
               (Inl err, w1) \<Rightarrow> (HTTPError ''File not found'' 404, w1)
             | (Inr fileInfo, w1) \<Rightarrow>
                 if is_dir fileInfo \<and> filePath \<noteq> ''/''
                 then (Redirect (''/?path='' @ filePath) 302, w1)
                 else http_ServeFile w1 r fullPath))"
    unfolding handleDownload_def Let_def assms(2,3) using assms(1) by simp
  with assms(4,5) show ?thesis by simp
qed

text \<open>
  Claim C4, as amended.  For a download request whose path passes the confinement
  guard: when the target cannot be found the answer is 404; when the target is a
  directory and the logical path is not \<^verbatim>\<open>/\<close>, the answer is a redirect (302) to
  \<^verbatim>\<open>/?path=\<close> followed by that logical path; when the target is the storage root itself,
  requested as \<^verbatim>\<open>/download/\<close>, the root directory is handed to the file server, which
  answers with the bytes of the root's \<^verbatim>\<open>index.html\<close> when that is a regular file, with
  a listing of the entries of \<^verbatim>\<open>index.html\<close> when that is a directory, and with a listing
  of the entries of the root when it has no \<^verbatim>\<open>index.html\<close>; when the target is a regular
  file, and the URL path has no \<^verbatim>\<open>..\<close> element and does not end in \<^verbatim>\<open>/index.html\<close>, the
  answer is the bytes of the file.  Nothing is said here of a regular file requested
  by a URL path with a \<^verbatim>\<open>..\<close> element or ending in \<^verbatim>\<open>/index.html\<close>.
\<close>

theorem download_dispatch:
  assumes "Method r = ''GET''"
    and "filePath = (if TrimPrefix (URL_Path r) ''/download'' = [] then ''/''
                     else TrimPrefix (URL_Path r) ''/download'')"
    and "fullPath = Join [uploadPath, Clean filePath]"
    and "Rel uploadPath fullPath = Inr rel" and "\<not> HasPrefix rel ''..''"
    and "target = lookup (root w) (abspath (cwd w) fullPath)"
  shows "(\<forall>e. target = Inl e \<longrightarrow>
            fst (handleDownload w r) = HTTPError ''File not found'' 404)
       \<and> (\<forall>es. target = Inr (DirNode es) \<and> filePath \<noteq> ''/'' \<longrightarrow>
            fst (handleDownload w r) = Redirect (''/?path='' @ filePath) 302)
       \<and> (\<forall>es. target = Inr (DirNode es) \<and> URL_Path r = ''/download/'' \<longrightarrow>
            fst (handleDownload w r) =
              (case map_of es ''index.html'' of
                 Some (FileNode c) \<Rightarrow> FileContent ''index.html'' c
               | Some (DirNode es') \<Rightarrow> DirListing (dirList es')
               | None \<Rightarrow> DirListing (dirList es)))
       \<and> (\<forall>c. target = Inr (FileNode c) \<and> \<not> containsDotDot (URL_Path r)
                \<and> \<not> HasSuffix (URL_Path r) ''/index.html'' \<longrightarrow>
            fst (handleDownload w r) = FileContent (Base fullPath) c)"
proof -
  note H = handleDownload_guarded[OF assms(1-5), of w]
  have S: "os_Stat w fullPath = (target, w\<lparr>calls := calls w @ [StatCall fullPath]\<rparr>)"
    by (simp add: os_Stat_def assms(6))
  have a: "\<forall>e. target = Inl e \<longrightarrow> fst (handleDownload w r) = HTTPError ''File not found'' 404"
    unfolding H S by simp
  have b: "\<forall>es. target = Inr (DirNode es) \<and> filePath \<noteq> ''/'' \<longrightarrow>
            fst (handleDownload w r) = Redirect (''/?path='' @ filePath) 302"
    unfolding H S by simp
  have c: "\<forall>es. target = Inr (DirNode es) \<and> URL_Path r = ''/download/'' \<longrightarrow>
            fst (handleDownload w r) =
              (case map_of es ''index.html'' of
                 Some (FileNode c) \<Rightarrow> FileContent ''index.html'' c
               | Some (DirNode es') \<Rightarrow> DirListing (dirList es')
               | None \<Rightarrow> DirListing (dirList es))"
  proof (intro allI impI)
    fix es assume t: "target = Inr (DirNode es) \<and> URL_Path r = ''/download/''"
    hence fp: "filePath = ''/''" by (simp add: assms(2) TrimPrefix_def HasPrefix_def)
    have nd: "\<not> containsDotDot ''/download/''" by (simp add: containsDotDot_def Separator_def)
    have ns: "\<not> HasSuffix ''/download/'' ''/index.html''" by (simp add: HasSuffix_def)
    show "fst (handleDownload w r) =
              (case map_of es ''index.html'' of
                 Some (FileNode c) \<Rightarrow> FileContent ''index.html'' c
               | Some (DirNode es') \<Rightarrow> DirListing (dirList es')
               | None \<Rightarrow> DirListing (dirList es))"
      unfolding H S using t fp nd ns assms(6)
      by (simp add: http_ServeFile_def Let_def Separator_def split: option.splits node.splits)
  qed
  have d: "\<forall>c. target = Inr (FileNode c) \<and> \<not> containsDotDot (URL_Path r)
                \<and> \<not> HasSuffix (URL_Path r) ''/index.html'' \<longrightarrow>
            fst (handleDownload w r) = FileContent (Base fullPath) c"
    unfolding H S using assms(6) by (simp add: http_ServeFile_def Let_def)
  from a b c d show ?thesis by blast
qed

theorem download_dispatch_witness:
  "Rel uploadPath (Join [uploadPath, Clean ''/docs/a.txt'']) = Inr ''docs/a.txt''
   \<and> \<not> HasPrefix ''docs/a.txt'' ''..''
   \<and> lookup (root world_ex) (abspath (cwd world_ex) (Join [uploadPath, Clean ''/docs/a.txt'']))
       = Inr (FileNode ''0123456789'')
   \<and> \<not> containsDotDot ''/download/docs/a.txt''
   \<and> \<not> HasSuffix ''/download/docs/a.txt'' ''/index.html''
   \<and> fst (handleDownload world_ex
        \<lparr>Method = ''GET'', URL_Path = ''/download/docs/a.txt'', RawQuery = [], Query = [], Body = OtherBody\<rparr>)
       = FileContent ''a.txt'' ''0123456789''"
proof -
  let ?r = "\<lparr>Method = ''GET'', URL_Path = ''/download/docs/a.txt'', RawQuery = [], Query = [], Body = OtherBody\<rparr>"
  have m: "Method ?r = ''GET''" by simp
  have f: "''/docs/a.txt'' = (if TrimPrefix (URL_Path ?r) ''/download'' = [] then ''/''
                     else TrimPrefix (URL_Path ?r) ''/download'')"
    by (simp add: TrimPrefix_def HasPrefix_def)
  have g: "Rel uploadPath (Join [uploadPath, Clean ''/docs/a.txt'']) = Inr ''docs/a.txt''"
    by code_simp
  have n: "\<not> HasPrefix ''docs/a.txt'' ''..''" by code_simp
  have l: "lookup (root world_ex) (abspath (cwd world_ex) (Join [uploadPath, Clean ''/docs/a.txt'']))
       = Inr (FileNode ''0123456789'')"
    by code_simp
  have u: "\<not> containsDotDot ''/download/docs/a.txt''
      \<and> \<not> HasSuffix ''/download/docs/a.txt'' ''/index.html''"
    by code_simp
  have e: "Base (Join [uploadPath, Clean ''/docs/a.txt'']) = ''a.txt''"
    by code_simp
  from download_dispatch[OF m f refl g n refl, of world_ex] l u e
  have "fst (handleDownload world_ex ?r) = FileContent ''a.txt'' ''0123456789''" by simp
  with g n l u show ?thesis by blast
qed

text \<open>
  The storage root of the example holds the regular file \<^verbatim>\<open>index.html\<close>.  The request
  \<^verbatim>\<open>GET /download/\<close> for the root directory is answered with the bytes of that file:
  file content is served.  The request \<^verbatim>\<open>GET /download/index.html\<close> for that file, which
  exists and is no directory, is answered with a redirect, and the request
  \<^verbatim>\<open>GET /download/x/../docs/a.txt\<close> for the existing file \<^verbatim>\<open>docs/a.txt\<close> with status 400:
  their bytes are not streamed.
\<close>

theorem download_root_counterexample:
  "lookup (root world_ex) (abspath (cwd world_ex) (Join [uploadPath, Clean ''/'']))
     = Inr (DirNode [(''index.html'', FileNode ''hi''),
                     (''docs'', DirNode [(''a.txt'', FileNode ''0123456789'')])])
   \<and> handleDownload world_ex
        \<lparr>Method = ''GET'', URL_Path = ''/download/'', RawQuery = [], Query = [], Body = OtherBody\<rparr>
       = (FileContent ''index.html'' ''hi'',
          world_ex\<lparr>calls := [StatCall ''uploads'', ServeFileCall ''uploads'']\<rparr>)
   \<and> lookup (root world_ex) (abspath (cwd world_ex) (Join [uploadPath, Clean ''/index.html'']))
     = Inr (FileNode ''hi'')
   \<and> handleDownload world_ex
        \<lparr>Method = ''GET'', URL_Path = ''/download/index.html'', RawQuery = [], Query = [], Body = OtherBody\<rparr>
       = (Redirect ''./'' 301,
          world_ex\<lparr>calls := [StatCall ''uploads/index.html'', ServeFileCall ''uploads/index.html'']\<rparr>)
   \<and> lookup (root world_ex) (abspath (cwd world_ex) (Join [uploadPath, Clean ''/x/../docs/a.txt'']))
     = Inr (FileNode ''0123456789'')
   \<and> handleDownload world_ex
        \<lparr>Method = ''GET'', URL_Path = ''/download/x/../docs/a.txt'', RawQuery = [], Query = [], Body = OtherBody\<rparr>
       = (HTTPError ''invalid URL path'' 400,
          world_ex\<lparr>calls := [StatCall ''uploads/docs/a.txt'', ServeFileCall ''uploads/docs/a.txt'']\<rparr>)"
  by code_simp

section \<open>Where the handlers depart from the specification\<close>

text \<open>
  Claim C1 says that an upload is validated against the storage root before any
  directory is created or file written.  The upload handler has no such check: with
  the form field \<^verbatim>\<open>path=../../etc\<close> and a file part named \<^verbatim>\<open>passwd\<close>, on a server running
  in \<^verbatim>\<open>/srv/app\<close>, it creates the directory \<^verbatim>\<open>/srv/etc\<close>, writes \<^verbatim>\<open>/srv/etc/passwd\<close> and
  reports success.  Both paths lie outside the storage root, and the relative path from
  the storage root to the file begins with \<^verbatim>\<open>..\<close>, so the guard of the other handlers
  would have rejected it.
\<close>

theorem upload_escapes_storage_root:
  "handleAPIUpload world_ex
     \<lparr>Method = ''POST'', URL_Path = ''/api/upload'', RawQuery = [], Query = [],
       Body = MultipartBody [(''path'', ''../../etc'')]
                [(''file'', \<lparr>Filename = ''passwd'', content = ''x''\<rparr>)]\<rparr>
   = (JSONMessage ''File uploaded successfully to ../../etc/passwd'',
      \<lparr>root = DirNode [(''srv'', DirNode [(''app'', DirNode [(''uploads'',
           DirNode [(''index.html'', FileNode ''hi''),
                    (''docs'', DirNode [(''a.txt'', FileNode ''0123456789'')])])]),
           (''etc'', DirNode [(''passwd'', FileNode ''x'')])])],
       cwd = [''srv'', ''app''],
       calls = [MkdirAllCall ''../etc'', CreateCall ''../etc/passwd'', CopyCall ''../etc/passwd'']\<rparr>)
   \<and> \<not> under_root (cwd world_ex) ''../etc''
   \<and> \<not> under_root (cwd world_ex) ''../etc/passwd''
   \<and> Rel uploadPath ''../etc/passwd'' = Inr ''../../etc/passwd''"
proof -
  have run: "handleAPIUpload world_ex
     \<lparr>Method = ''POST'', URL_Path = ''/api/upload'', RawQuery = [], Query = [],
       Body = MultipartBody [(''path'', ''../../etc'')]
                [(''file'', \<lparr>Filename = ''passwd'', content = ''x''\<rparr>)]\<rparr>
   = (JSONMessage ''File uploaded successfully to ../../etc/passwd'',
      \<lparr>root = DirNode [(''srv'', DirNode [(''app'', DirNode [(''uploads'',
           DirNode [(''index.html'', FileNode ''hi''),
                    (''docs'', DirNode [(''a.txt'', FileNode ''0123456789'')])])]),
           (''etc'', DirNode [(''passwd'', FileNode ''x'')])])],
       cwd = [''srv'', ''app''],
       calls = [MkdirAllCall ''../etc'', CreateCall ''../etc/passwd'', CopyCall ''../etc/passwd'']\<rparr>)"
    by (simp add: handleAPIUpload_def ParseMultipartForm_def FormValue_def FormFile_def
          os_MkdirAll_def os_Create_def io_Copy_def abspath_def walk_step_def world_ex_def
          eval_paths Let_def)
  have out: "\<not> under_root (cwd world_ex) ''../etc''
    \<and> \<not> under_root (cwd world_ex) ''../etc/passwd''
    \<and> Rel uploadPath ''../etc/passwd'' = Inr ''../../etc/passwd''"
    by code_simp
  from run out show ?thesis by blast
qed

text \<open>
  A path under the storage root passes the guard, and the listing handler then reads
  exactly the join of the storage root and the normalised path, provided the first
  element below the storage root does not start with two dots.
\<close>

lemma join_sep_no_dotdot_prefix:
  assumes "e \<noteq> []" and "\<not> HasPrefix e ''..''"
  shows "\<not> HasPrefix (join_sep (e # es)) ''..''"
proof (cases e)
  case Nil
  with assms show ?thesis by simp
next
  case (Cons c cs)
  show ?thesis
  proof (cases cs)
    case Nil
    with Cons show ?thesis by (cases es) (auto simp: HasPrefix_def Separator_def)
  next
    case (Cons d ds)
    with \<open>e = c # cs\<close> assms(2) show ?thesis by (auto simp: HasPrefix_def join_sep_Cons)
  qed
qed

lemma in_root_passes_guard:
  assumes sp: "split_sep (Clean s) = ''uploads'' # es"
    and nd: "es = [] \<or> \<not> HasPrefix (hd es) ''..''"
  shows "\<exists>rel. Rel uploadPath (Clean s) = Inr rel \<and> \<not> HasPrefix rel ''..''"
proof (cases "Clean s = ''uploads''")
  case True
  have "Clean (Clean s) = Clean uploadPath"
    using True Clean_idem[of s] by (simp add: Clean_uploadPath)
  hence "Rel uploadPath (Clean s) = Inr ''.''"
    unfolding Rel_def Let_def by simp
  then show ?thesis by (simp add: HasPrefix_def)
next
  case False
  define t where "t = Clean s"
  have tt: "Clean t = t" by (simp add: t_def Clean_idem)
  have tn: "t \<noteq> ''uploads''" using False by (simp add: t_def)
  have spt: "split_sep t = ''uploads'' # es" using sp by (simp add: t_def)
  from split_sep_hd[OF spt] have nr: "t \<noteq> [] \<and> hd t \<noteq> Separator" by (simp add: Separator_def)
  hence "Clean s = [] \<or> hd (Clean s) \<noteq> Separator" by (simp add: t_def)
  from Clean_unrooted[OF this] spt obtain
    ne: "\<forall>x\<in>set es. x \<noteq> []" and j: "t = join_sep (''uploads'' # es)"
    by (auto simp: t_def)
  have es: "es \<noteq> []" using j tn by auto
  then obtain e es' where ees: "es = e # es'" by (cases es) auto
  have le: "last (''uploads'' # es) \<noteq> []" using ne es by (cases es rule: rev_cases) auto
  have re: "rel_elems t = ''uploads'' # es" using spt le by (simp add: rel_elems_def)
  have "Rel uploadPath t = Inr (join_sep es)"
    using Rel_uploadPath[OF tt tn] nr re es by (simp del: join_sep.simps)
  moreover have "\<not> HasPrefix (join_sep es) ''..''"
    using join_sep_no_dotdot_prefix[of e es'] ne nd ees by simp
  ultimately show ?thesis by (simp add: t_def)
qed

lemma listing_resolves_to_join:
  assumes d: "dirPath = (if Get (Query r) ''path'' = [] then ''/'' else Get (Query r) ''path'')"
    and f: "fullPath = Join [uploadPath, Clean dirPath]"
    and sp: "split_sep fullPath = ''uploads'' # es"
    and nd: "es = [] \<or> \<not> HasPrefix (hd es) ''..''"
  shows "calls (snd (handleAPIFiles w r)) = calls w @ [ReadDirCall fullPath]"
proof -
  obtain s where s: "fullPath = Clean s" using Join_upload_Clean[of "[Clean dirPath]"] f by auto
  from in_root_passes_guard[of s es] sp nd s obtain rel where
    R: "Rel uploadPath fullPath = Inr rel" and np: "\<not> HasPrefix rel ''..''" by auto
  show ?thesis
    unfolding handleAPIFiles_guarded[OF d f R np, of w]
    by (auto simp: os_ReadDir_def split: sum.splits node.splits)
qed

text \<open>
  Claim C6 says that a logical path that stays within the storage root resolves to the
  join of the storage root and the normalised path.  The guard tests whether the
  relative path starts with the two characters \<^verbatim>\<open>..\<close>, not whether its first element is
  \<^verbatim>\<open>..\<close>: the logical path \<^verbatim>\<open>/..foo\<close> joins to \<^verbatim>\<open>uploads/..foo\<close>, which lies under the
  storage root, and is rejected all the same.
\<close>

theorem dotdot_name_rejected:
  "Join [uploadPath, Clean ''/..foo''] = ''uploads/..foo''
   \<and> under_root (cwd world_ex) ''uploads/..foo''
   \<and> handleAPIFiles world_ex
        \<lparr>Method = ''GET'', URL_Path = ''/api/files'', RawQuery = ''path=/..foo'', Query = [(''path'', ''/..foo'')], Body = OtherBody\<rparr>
       = (JSONError ''Invalid path'' 400, world_ex)"
  by code_simp

text \<open>
  Claim C8 says that every endpoint answers a request with the wrong verb by 405 and
  makes no filesystem call.  The listing handler never looks at the method: a
  \<^verbatim>\<open>POST\<close> to \<^verbatim>\<open>/api/files\<close> reads the directory and is answered with the listing and
  status 200.
\<close>

theorem listing_ignores_method:
  "handleAPIFiles world_ex
     \<lparr>Method = ''POST'', URL_Path = ''/api/files'', RawQuery = ''path=/docs'', Query = [(''path'', ''/docs'')], Body = OtherBody\<rparr>
   = (JSONFiles ''/docs''
        [\<lparr>entry_Name = ''a.txt'', entry_Path = ''/docs/a.txt'', entry_IsDir = False, entry_Size = 10\<rparr>],
      world_ex\<lparr>calls := [ReadDirCall ''uploads/docs'']\<rparr>)
   \<and> status (fst (handleAPIFiles world_ex
     \<lparr>Method = ''POST'', URL_Path = ''/api/files'', RawQuery = ''path=/docs'', Query = [(''path'', ''/docs'')], Body = OtherBody\<rparr>)) = 200"
  by code_simp

text \<open>The other four handlers do check the method first and touch nothing.\<close>

lemma wrong_method_other_handlers:
  "(Method r \<noteq> ''GET'' \<longrightarrow> handleIndex w r = (HTTPError ''Method not allowed'' 405, w))
   \<and> (Method r \<noteq> ''POST'' \<longrightarrow> handleAPIUpload w r = (JSONError ''Method not allowed'' 405, w))
   \<and> (Method r \<noteq> ''POST'' \<longrightarrow> handleAPIMkdir w r = (JSONError ''Method not allowed'' 405, w))
   \<and> (Method r \<noteq> ''GET'' \<longrightarrow> handleDownload w r = (HTTPError ''Method not allowed'' 405, w))"
  by (simp add: handleIndex_def handleAPIUpload_def handleAPIMkdir_def handleDownload_def sendJSONError_def)

text \<open>An upload into \<^verbatim>\<open>/docs\<close> succeeds whatever the bytes of the file part are.\<close>

lemma upload_any_content:
  "handleAPIUpload world_ex
     \<lparr>Method = ''POST'', URL_Path = ''/api/upload'', RawQuery = [], Query = [],
       Body = MultipartBody [(''path'', ''/docs'')]
                [(''file'', \<lparr>Filename = ''big.bin'', content = c\<rparr>)]\<rparr>
   = (JSONMessage ''File uploaded successfully to /docs/big.bin'',
      \<lparr>root = DirNode [(''srv'', DirNode [(''app'', DirNode [(''uploads'',
           DirNode [(''index.html'', FileNode ''hi''),
                    (''docs'', DirNode [(''a.txt'', FileNode ''0123456789''),
                                        (''big.bin'', FileNode c)])])])])],
       cwd = [''srv'', ''app''],
       calls = [MkdirAllCall ''uploads/docs'', CreateCall ''uploads/docs/big.bin'',
                CopyCall ''uploads/docs/big.bin'']\<rparr>)"
  by (simp add: handleAPIUpload_def ParseMultipartForm_def FormValue_def FormFile_def
        os_MkdirAll_def os_Create_def io_Copy_def abspath_def walk_step_def world_ex_def
        eval_paths Let_def)

text \<open>
  Claim C9 says that an upload larger than 32 MiB is rejected before any byte is written.
  The bound passed to \<^verbatim>\<open>ParseMultipartForm\<close> limits memory, not size: a file part of
  32 MiB and one byte is parsed, written in full under the storage root and reported as
  uploaded.
\<close>

theorem oversized_upload_accepted:
  "32 * 2 ^ 20 < length big_file
   \<and> handleAPIUpload world_ex
     \<lparr>Method = ''POST'', URL_Path = ''/api/upload'', RawQuery = [], Query = [],
       Body = MultipartBody [(''path'', ''/docs'')]
                [(''file'', \<lparr>Filename = ''big.bin'', content = big_file\<rparr>)]\<rparr>
   = (JSONMessage ''File uploaded successfully to /docs/big.bin'',
      \<lparr>root = DirNode [(''srv'', DirNode [(''app'', DirNode [(''uploads'',
           DirNode [(''index.html'', FileNode ''hi''),
                    (''docs'', DirNode [(''a.txt'', FileNode ''0123456789''),
                                        (''big.bin'', FileNode big_file)])])])])],
       cwd = [''srv'', ''app''],
       calls = [MkdirAllCall ''uploads/docs'', CreateCall ''uploads/docs/big.bin'',
                CopyCall ''uploads/docs/big.bin'']\<rparr>)"
proof -
  have "32 * 2 ^ 20 < length big_file" by (simp add: big_file_def)
  with upload_any_content[of big_file] show ?thesis by blast
qed

end
